theory Spec2Isabelle
  imports Main "HOL-Library.Word"
begin

unbundle bit_operations_syntax

section \<open>Results: the uniform success/error mapping (internal/fs/fs.go)\<close>

text \<open>
  Go strings are byte sequences; \<open>string\<close> (a list of 8-bit characters) models them
  byte for byte. A result is Go's \<open>map[string]any\<close>: a partial map from field names to
  dynamically typed values. The values the package stores are booleans, strings,
  \<open>int\<close> (the item count), \<open>int64\<close> (sizes and Unix times) and the slice of item maps
  built by \<open>List\<close>.
\<close>

datatype val =
    VBool bool
  | VStr string
  | VInt int
  | VInt64 int
  | VItems "(string \<times> val) list list"

type_synonym result = "string \<rightharpoonup> val"

text \<open>Decimal and octal rendering of a non-negative integer (\<open>%d\<close>, \<open>%o\<close> of \<open>fmt\<close>).\<close>

definition digit_char :: "nat \<Rightarrow> char" where
  "digit_char d = char_of (48 + d)"

fun format_decimal :: "nat \<Rightarrow> string" where
  "format_decimal n =
     (if n < 10 then [digit_char n]
      else format_decimal (n div 10) @ [digit_char (n mod 10)])"

fun format_octal :: "nat \<Rightarrow> string" where
  "format_octal n =
     (if n < 8 then [digit_char n]
      else format_octal (n div 8) @ [digit_char (n mod 8)])"

declare format_decimal.simps [simp del]

declare format_octal.simps [simp del]

text \<open>The dynamic type of a value as \<open>%T\<close> prints it.\<close>

fun go_type_name :: "val \<Rightarrow> string" where
  "go_type_name (VBool _) = ''bool''"
| "go_type_name (VStr _) = ''string''"
| "go_type_name (VInt _) = ''int''"
| "go_type_name (VInt64 _) = ''int64''"
| "go_type_name (VItems _) = ''[]map[string]interface {}''"

text \<open>\<open>mcpError\<close>: the argument is the text of the Go error (\<open>err.Error()\<close>).\<close>

definition mcpError :: "string \<Rightarrow> result" where
  "mcpError msg = [''error'' \<mapsto> VStr msg, ''success'' \<mapsto> VBool False]"

text \<open>
  \<open>mcpSuccess\<close> takes a flat list of name-value pairs. The loop walks the list two
  elements at a time; \<open>i\<close> is the index of the name it looks at. A name that is not a
  string aborts with an error result.
\<close>

fun mcpSuccess_loop :: "nat \<Rightarrow> val list \<Rightarrow> result \<Rightarrow> result" where
  "mcpSuccess_loop i (VStr name # v # rest) r = mcpSuccess_loop (i + 2) rest (r(name \<mapsto> v))"
| "mcpSuccess_loop i (n # v # rest) r =
     mcpError (''name at index '' @ format_decimal i @ '' must be a string, got '' @ go_type_name n)"
| "mcpSuccess_loop i rest r = r"

definition mcpSuccess :: "val list \<Rightarrow> result" where
  "mcpSuccess nameValuePairs =
     (if length nameValuePairs mod 2 \<noteq> 0 then mcpError ''odd number of name-value pairs''
      else mcpSuccess_loop 0 nameValuePairs [''success'' \<mapsto> VBool True])"

section \<open>Standard-library string and path functions\<close>

text \<open>
  The package calls a few pure functions of the Go standard library (\<open>strings\<close>, \<open>os\<close>,
  \<open>path/filepath\<close>, \<open>unicode/utf8\<close>). They are not part of the repository; the
  definitions below follow their documented behaviour on a Unix host (separator \<open>/\<close>,
  no volume names).
\<close>

definition HasPrefix :: "string \<Rightarrow> string \<Rightarrow> bool" where
  "HasPrefix s pre = (take (length pre) s = pre)"

fun Contains :: "string \<Rightarrow> string \<Rightarrow> bool" where
  "Contains [] sub = (sub = [])"
| "Contains (c # cs) sub = (HasPrefix (c # cs) sub \<or> Contains cs sub)"

text \<open>\<open>strings.Replace(s, old, new, 1)\<close>: the first occurrence of \<open>old\<close> is replaced.\<close>

fun Replace1 :: "string \<Rightarrow> string \<Rightarrow> string \<Rightarrow> string" where
  "Replace1 [] old new = (if old = [] then new else [])"
| "Replace1 (c # cs) old new =
     (if HasPrefix (c # cs) old then new @ drop (length old) (c # cs)
      else c # Replace1 cs old new)"

subsection \<open>os.Expand and os.ExpandEnv\<close>

definition isShellSpecialVar :: "char \<Rightarrow> bool" where
  "isShellSpecialVar c = (c \<in> set ''*#$@!?-0123456789'')"

text \<open>The numeric value of a byte; Go compares bytes as numbers.\<close>

definition byte :: "char \<Rightarrow> nat" where
  "byte c = of_char c"

definition in_range :: "char \<Rightarrow> char \<Rightarrow> char \<Rightarrow> bool" where
  "in_range lo hi c = (byte lo \<le> byte c \<and> byte c \<le> byte hi)"

definition isAlphaNum :: "char \<Rightarrow> bool" where
  "isAlphaNum c =
     (c = CHR ''_'' \<or> in_range (CHR ''0'') (CHR ''9'') c \<or> in_range (CHR ''a'') (CHR ''z'') c
      \<or> in_range (CHR ''A'') (CHR ''Z'') c)"

text \<open>
  \<open>getShellName s\<close>, for the non-empty text \<open>s\<close> after a dollar sign: the variable name
  and the number of bytes it takes. An empty name with a positive width is bad syntax
  that is eaten; an empty name of width 0 leaves the dollar sign in place.
\<close>

definition getShellName :: "string \<Rightarrow> string \<times> nat" where
  "getShellName s =
     (case s of
        [] \<Rightarrow> ([], 0)
      | c # cs \<Rightarrow>
          if c = CHR ''{'' then
            (case cs of
               d # e # _ \<Rightarrow>
                 if isShellSpecialVar d \<and> e = CHR ''}'' then ([d], 3)
                 else if CHR ''}'' \<in> set cs then
                   (let name = takeWhile (\<lambda>x. x \<noteq> CHR ''}'') cs
                    in if name = [] then ([], 2) else (name, length name + 2))
                 else ([], 1)
             | _ \<Rightarrow>
                 if CHR ''}'' \<in> set cs then ([], 2) else ([], 1))
          else if isShellSpecialVar c then ([c], 1)
          else (let name = takeWhile isAlphaNum s in (name, length name)))"

function Expand :: "string \<Rightarrow> (string \<Rightarrow> string) \<Rightarrow> string" where
  "Expand [] mapping = []"
| "Expand (c # cs) mapping =
     (if c = CHR ''$'' \<and> cs \<noteq> [] then
        (let (name, w) = getShellName cs
         in (if name = [] \<and> 0 < w then []
             else if name = [] then [c]
             else mapping name) @ Expand (drop w cs) mapping)
      else c # Expand cs mapping)"
  by pat_completeness auto
termination
  by (relation "measure (\<lambda>(s, m). length s)") auto

subsection \<open>filepath.Clean, Dir, Base and Join\<close>

text \<open>Splitting at every separator: \<open>a//b\<close> gives \<open>a\<close>, the empty string and \<open>b\<close>.\<close>

fun splitsep :: "string \<Rightarrow> string list" where
  "splitsep [] = [[]]"
| "splitsep (c # cs) =
     (if c = CHR ''/'' then [] # splitsep cs
      else (case splitsep cs of [] \<Rightarrow> [[c]] | x # xs \<Rightarrow> (c # x) # xs))"

fun joinsep :: "string list \<Rightarrow> string" where
  "joinsep [] = []"
| "joinsep [x] = x"
| "joinsep (x # y # ys) = x @ CHR ''/'' # joinsep (y # ys)"

text \<open>
  One path element processed by \<open>Clean\<close>: \<open>out\<close> holds the elements kept so far. Empty
  elements and \<open>.\<close> are dropped; \<open>..\<close> removes the element before it when there is one
  that is not itself \<open>..\<close>, is dropped at the root of a rooted path, and is kept
  otherwise.
\<close>

definition clean_step :: "bool \<Rightarrow> string list \<Rightarrow> string \<Rightarrow> string list" where
  "clean_step rooted out c =
     (if c = [] \<or> c = ''.'' then out
      else if c = ''..'' then
        (if out \<noteq> [] \<and> last out \<noteq> ''..'' then butlast out
         else if rooted then out
         else out @ [''..''])
      else out @ [c])"

definition is_rooted :: "string \<Rightarrow> bool" where
  "is_rooted s = (case s of [] \<Rightarrow> False | c # _ \<Rightarrow> c = CHR ''/'')"

definition render_path :: "bool \<Rightarrow> string list \<Rightarrow> string" where
  "render_path rooted out =
     (let r = (if rooted then ''/'' else []) @ joinsep out
      in if r = [] then ''.'' else r)"

definition Clean :: "string \<Rightarrow> string" where
  "Clean path = render_path (is_rooted path) (foldl (clean_step (is_rooted path)) [] (splitsep path))"

definition Dir :: "string \<Rightarrow> string" where
  "Dir path = Clean (rev (dropWhile (\<lambda>c. c \<noteq> CHR ''/'') (rev path)))"

definition Base :: "string \<Rightarrow> string" where
  "Base path =
     (if path = [] then ''.''
      else (let p = dropWhile (\<lambda>c. c = CHR ''/'') (rev path);
                b = rev (takeWhile (\<lambda>c. c \<noteq> CHR ''/'') p)
            in if b = [] then ''/'' else b))"

text \<open>\<open>filepath.Join\<close>: leading empty elements are skipped, the rest joined and cleaned.\<close>

definition Join :: "string list \<Rightarrow> string" where
  "Join elem =
     (case dropWhile (\<lambda>e. e = []) elem of
        [] \<Rightarrow> []
      | e # es \<Rightarrow> Clean (joinsep (e # es)))"

subsection \<open>utf8.Valid\<close>

definition between :: "nat \<Rightarrow> nat \<Rightarrow> char \<Rightarrow> bool" where
  "between lo hi c = (lo \<le> byte c \<and> byte c \<le> hi)"

text \<open>
  Well-formed UTF-8: one byte below \<open>0x80\<close>, or a lead byte followed by the
  continuation bytes its range asks for (no overlong forms, no surrogates, nothing
  above \<open>U+10FFFF\<close>).
\<close>

fun Valid :: "string \<Rightarrow> bool" where
  "Valid [] = True"
| "Valid (b0 # rest) =
     (if byte b0 < 0x80 then Valid rest
      else if between 0xC2 0xDF b0 then
        (case rest of
           b1 # r \<Rightarrow> between 0x80 0xBF b1 \<and> Valid r
         | _ \<Rightarrow> False)
      else if between 0xE0 0xEF b0 then
        (case rest of
           b1 # b2 # r \<Rightarrow>
             between (if byte b0 = 0xE0 then 0xA0 else 0x80)
                     (if byte b0 = 0xED then 0x9F else 0xBF) b1
             \<and> between 0x80 0xBF b2 \<and> Valid r
         | _ \<Rightarrow> False)
      else if between 0xF0 0xF4 b0 then
        (case rest of
           b1 # b2 # b3 # r \<Rightarrow>
             between (if byte b0 = 0xF0 then 0x90 else 0x80)
                     (if byte b0 = 0xF4 then 0x8F else 0xBF) b1
             \<and> between 0x80 0xBF b2 \<and> between 0x80 0xBF b3 \<and> Valid r
         | _ \<Rightarrow> False)
      else False)"

section \<open>The path resolver: ExpandPath\<close>

text \<open>
  The process environment is a function from variable names to values, \<open>os.Getenv\<close>:
  an unset variable reads as the empty string. \<open>os.UserHomeDir\<close> on Unix is the value
  of \<open>HOME\<close> and fails when that is empty.
\<close>

definition UserHomeDir :: "(string \<Rightarrow> string) \<Rightarrow> string + string" where
  "UserHomeDir getenv =
     (let v = getenv ''HOME'' in if v \<noteq> [] then Inr v else Inl ''$HOME is not defined'')"

text \<open>
  \<open>ExpandPath\<close> returns the error text (\<open>Inl\<close>) or the path (\<open>Inr\<close>). The deferred
  function cleans the named result on every return that carries no error; the failing
  return leaves it alone.
\<close>

definition ExpandPath :: "(string \<Rightarrow> string) \<Rightarrow> string \<Rightarrow> string + string" where
  "ExpandPath getenv p0 =
     (let p = Expand p0 getenv in
      if HasPrefix p ''~/'' \<or> p = ''~'' then
        (case UserHomeDir getenv of
           Inl e \<Rightarrow> Inl (''failed to get home directory: '' @ e)
         | Inr home \<Rightarrow>
             if p = ''~'' then Inr (Clean home)
             else Inr (Clean (Replace1 p ''~'' home)))
      else Inr (Clean p))"

section \<open>The host: file-system primitives as parameters\<close>

text \<open>
  A host error carries the class that \<open>os.IsNotExist\<close> and \<open>os.IsPermission\<close> test,
  and its message.
\<close>

datatype errclass = NotExist | Permission | OtherErr

datatype oserror = OsError (err_class: errclass) (Error: string)

definition IsNotExist :: "oserror \<Rightarrow> bool" where
  "IsNotExist e = (err_class e = NotExist)"

definition IsPermission :: "oserror \<Rightarrow> bool" where
  "IsPermission e = (err_class e = Permission)"

text \<open>\<open>os.FileInfo\<close>: size, mode bits (a \<open>uint32\<close>) and modification time in Unix seconds.\<close>

record fileinfo =
  fi_size :: int
  fi_mode :: "32 word"
  fi_modTime :: int

definition ModeDir :: "32 word" where
  "ModeDir = push_bit 31 1"

definition ModeSymlink :: "32 word" where
  "ModeSymlink = push_bit 27 1"

definition ModePerm :: "32 word" where
  "ModePerm = 0x1FF"

definition IsDir :: "fileinfo \<Rightarrow> bool" where
  "IsDir info = (fi_mode info AND ModeDir \<noteq> 0)"

definition Perm :: "fileinfo \<Rightarrow> 32 word" where
  "Perm info = fi_mode info AND ModePerm"

text \<open>A directory entry: its name and what \<open>Info()\<close> returns for it.\<close>

record direntry =
  de_name :: string
  de_info :: "oserror + fileinfo"

text \<open>
  One call that \<open>filepath.WalkDir\<close> makes to its callback: with an error the walk
  met at that path, or with the entry found there.
\<close>

datatype visit = VisitErr string oserror | VisitEntry string direntry

text \<open>
  The primitives of the operating system and of the libraries outside the repository,
  over a host state \<open>'h\<close>. A primitive that changes the file system returns the error
  (if any) and the new state. \<open>h_walkDir\<close> gives the callback invocations of
  \<open>filepath.WalkDir\<close> in order, for a callback that keeps returning \<open>nil\<close>.
  \<open>h_rel\<close> is \<open>filepath.Rel\<close>, \<open>h_copy\<close> the \<open>Copy\<close> of the \<open>otiai10/copy\<close>
  library, \<open>h_quote\<close> is \<open>strconv.Quote\<close>.
\<close>

record 'h host =
  h_getenv :: "string \<Rightarrow> string"
  h_stat :: "'h \<Rightarrow> string \<Rightarrow> oserror + fileinfo"
  h_readFile :: "'h \<Rightarrow> string \<Rightarrow> oserror + string"
  h_writeFile :: "'h \<Rightarrow> string \<Rightarrow> string \<Rightarrow> nat \<Rightarrow> oserror option \<times> 'h"
  h_mkdirAll :: "'h \<Rightarrow> string \<Rightarrow> nat \<Rightarrow> oserror option \<times> 'h"
  h_mkdir :: "'h \<Rightarrow> string \<Rightarrow> nat \<Rightarrow> oserror option \<times> 'h"
  h_remove :: "'h \<Rightarrow> string \<Rightarrow> oserror option \<times> 'h"
  h_removeAll :: "'h \<Rightarrow> string \<Rightarrow> oserror option \<times> 'h"
  h_rename :: "'h \<Rightarrow> string \<Rightarrow> string \<Rightarrow> oserror option \<times> 'h"
  h_copy :: "'h \<Rightarrow> string \<Rightarrow> string \<Rightarrow> oserror option \<times> 'h"
  h_readDir :: "'h \<Rightarrow> string \<Rightarrow> oserror + direntry list"
  h_walkDir :: "'h \<Rightarrow> string \<Rightarrow> visit list"
  h_rel :: "string \<Rightarrow> string \<Rightarrow> string + string"
  h_quote :: "string \<Rightarrow> string"

section \<open>The operation library (internal/fs/fs.go)\<close>

definition itemType :: "fileinfo \<Rightarrow> string" where
  "itemType info = (if IsDir info then ''directory'' else ''file'')"

text \<open>The permission arguments \<open>0755\<close> and \<open>0644\<close> of the source, in decimal.\<close>

definition perm_0755 :: nat where
  "perm_0755 = 493"

definition perm_0644 :: nat where
  "perm_0644 = 420"

definition Read :: "'h host \<Rightarrow> 'h \<Rightarrow> string \<Rightarrow> result" where
  "Read H s path =
     (if path = [] then mcpError ''path is required''
      else case ExpandPath (h_getenv H) path of
        Inl err \<Rightarrow> mcpError err
      | Inr p \<Rightarrow>
          (case h_stat H s p of
             Inl err \<Rightarrow>
               if IsNotExist err then mcpError (''file not found: '' @ path)
               else mcpError (Error err)
           | Inr info \<Rightarrow>
               if IsDir info then mcpError (''path is not a file: '' @ path)
               else
                 (case h_readFile H s p of
                    Inl err \<Rightarrow>
                      if IsPermission err then mcpError (''permission denied: '' @ path)
                      else mcpError (Error err)
                  | Inr data \<Rightarrow>
                      if \<not> Valid data then mcpError (''file is not valid UTF-8: '' @ path)
                      else mcpSuccess [VStr ''content'', VStr data])))"

definition Write :: "'h host \<Rightarrow> 'h \<Rightarrow> string \<Rightarrow> string \<Rightarrow> bool \<Rightarrow> result \<times> 'h" where
  "Write H s path content createDirs =
     (if path = [] then (mcpError ''path is required'', s)
      else if content = [] then (mcpError ''content is required'', s)
      else case ExpandPath (h_getenv H) path of
        Inl err \<Rightarrow> (mcpError err, s)
      | Inr p \<Rightarrow>
          (case (if createDirs then h_mkdirAll H s (Dir p) perm_0755 else (None, s)) of
             (Some err, s1) \<Rightarrow> (mcpError (Error err), s1)
           | (None, s1) \<Rightarrow>
               (case h_writeFile H s1 p content perm_0644 of
                  (Some err, s2) \<Rightarrow>
                    (if IsPermission err then mcpError (''permission denied: '' @ path)
                     else mcpError (Error err), s2)
                | (None, s2) \<Rightarrow> (mcpSuccess [VStr ''path'', VStr p], s2))))"

text \<open>
  The callback that \<open>List\<close> hands to \<open>filepath.WalkDir\<close>, run over the visits of the
  walk: the first error it returns ends the walk and is the walk's error.
\<close>

fun walk_items :: "(string \<Rightarrow> string \<Rightarrow> string + string) \<Rightarrow> string \<Rightarrow> visit list \<Rightarrow>
    (string \<times> val) list list \<Rightarrow> oserror + (string \<times> val) list list" where
  "walk_items rel p [] items = Inr items"
| "walk_items rel p (VisitErr walkPath err # vs) items = Inl err"
| "walk_items rel p (VisitEntry walkPath d # vs) items =
     (if walkPath = p then walk_items rel p vs items
      else case de_info d of
        Inl err \<Rightarrow> Inl err
      | Inr entryInfo \<Rightarrow>
          (let r = (case rel p walkPath of Inl relErr \<Rightarrow> de_name d | Inr r \<Rightarrow> r)
           in walk_items rel p vs
                (items @ [[(''path'', VStr walkPath), (''name'', VStr (de_name d)),
                           (''type'', VStr (itemType entryInfo)), (''relative'', VStr r)]])))"

text \<open>The loop of the non-recursive listing over the entries of \<open>os.ReadDir\<close>.\<close>

fun dir_items :: "string \<Rightarrow> direntry list \<Rightarrow> (string \<times> val) list list \<Rightarrow>
    oserror + (string \<times> val) list list" where
  "dir_items p [] items = Inr items"
| "dir_items p (entry # es) items =
     (case de_info entry of
        Inl err \<Rightarrow> Inl err
      | Inr info \<Rightarrow>
          dir_items p es
            (items @ [[(''path'', VStr (Join [p, de_name entry])), (''name'', VStr (de_name entry)),
                       (''type'', VStr (itemType info))]]))"

definition List :: "'h host \<Rightarrow> 'h \<Rightarrow> string \<Rightarrow> bool \<Rightarrow> result" where
  "List H s path recursive =
     (if path = [] then mcpError ''path is required''
      else case ExpandPath (h_getenv H) path of
        Inl err \<Rightarrow> mcpError err
      | Inr p \<Rightarrow>
          (case h_stat H s p of
             Inl err \<Rightarrow>
               if IsNotExist err then mcpError (''directory not found: '' @ path)
               else mcpError (Error err)
           | Inr info \<Rightarrow>
               if \<not> IsDir info then mcpError (''path is not a directory: '' @ path)
               else if recursive then
                 (case walk_items (h_rel H) p (h_walkDir H s p) [] of
                    Inl err \<Rightarrow>
                      if IsPermission err then mcpError (''permission denied: '' @ path)
                      else mcpError (Error err)
                  | Inr items \<Rightarrow>
                      mcpSuccess [VStr ''items'', VItems items, VStr ''count'', VInt (int (length items))])
               else
                 (case h_readDir H s p of
                    Inl err \<Rightarrow>
                      if IsPermission err then mcpError (''permission denied: '' @ path)
                      else mcpError (Error err)
                  | Inr entries \<Rightarrow>
                      (case dir_items p entries [] of
                         Inl err \<Rightarrow> mcpError (Error err)
                       | Inr items \<Rightarrow>
                           mcpSuccess [VStr ''items'', VItems items,
                                       VStr ''count'', VInt (int (length items))]))))"

definition Exists :: "'h host \<Rightarrow> 'h \<Rightarrow> string \<Rightarrow> result" where
  "Exists H s path =
     (if path = [] then mcpError ''path is required''
      else case ExpandPath (h_getenv H) path of
        Inl err \<Rightarrow> mcpError err
      | Inr p \<Rightarrow>
          (case h_stat H s p of
             Inr info \<Rightarrow>
               (mcpSuccess [VStr ''exists'', VBool True, VStr ''path'', VStr p])
                 (''type'' \<mapsto> VStr (itemType info),
                  ''is_file'' \<mapsto> VBool (\<not> IsDir info),
                  ''is_dir'' \<mapsto> VBool (IsDir info))
           | Inl err \<Rightarrow>
               if \<not> IsNotExist err then mcpError (Error err)
               else mcpSuccess [VStr ''exists'', VBool False, VStr ''path'', VStr p]))"

definition Stat :: "'h host \<Rightarrow> 'h \<Rightarrow> string \<Rightarrow> result" where
  "Stat H s path =
     (if path = [] then mcpError ''path is required''
      else case ExpandPath (h_getenv H) path of
        Inl err \<Rightarrow> mcpError err
      | Inr p \<Rightarrow>
          (case h_stat H s p of
             Inl err \<Rightarrow>
               if IsNotExist err then mcpError (''path not found: '' @ path)
               else mcpError (Error err)
           | Inr info \<Rightarrow>
               mcpSuccess
                 [VStr ''path'', VStr p,
                  VStr ''name'', VStr (Base p),
                  VStr ''type'', VStr (itemType info),
                  VStr ''size'', VInt64 (fi_size info),
                  VStr ''mode'', VStr (format_octal (unat (Perm info))),
                  VStr ''modified'', VInt64 (fi_modTime info),
                  VStr ''accessed'', VInt64 (fi_modTime info),
                  VStr ''created'', VInt64 (fi_modTime info),
                  VStr ''is_file'', VBool (\<not> IsDir info),
                  VStr ''is_dir'', VBool (IsDir info),
                  VStr ''is_symlink'', VBool (fi_mode info AND ModeSymlink \<noteq> 0)]))"

definition Mkdir :: "'h host \<Rightarrow> 'h \<Rightarrow> string \<Rightarrow> bool \<Rightarrow> result \<times> 'h" where
  "Mkdir H s path parents =
     (if path = [] then (mcpError ''path is required'', s)
      else case ExpandPath (h_getenv H) path of
        Inl err \<Rightarrow> (mcpError err, s)
      | Inr p \<Rightarrow>
          (case h_stat H s p of
             Inr info \<Rightarrow>
               if IsDir info then
                 (mcpSuccess [VStr ''path'', VStr p, VStr ''message'', VStr ''directory already exists''], s)
               else (mcpError (''path exists but is not a directory: '' @ path), s)
           | Inl _ \<Rightarrow>
               (case (if parents then h_mkdirAll H s p perm_0755 else h_mkdir H s p perm_0755) of
                  (Some err, s1) \<Rightarrow>
                    (if IsPermission err then mcpError (''permission denied: '' @ path)
                     else mcpError (Error err), s1)
                | (None, s1) \<Rightarrow> (mcpSuccess [VStr ''path'', VStr p], s1))))"

definition Rm :: "'h host \<Rightarrow> 'h \<Rightarrow> string \<Rightarrow> bool \<Rightarrow> result \<times> 'h" where
  "Rm H s path recursive =
     (if path = [] then (mcpError ''path is required'', s)
      else case ExpandPath (h_getenv H) path of
        Inl err \<Rightarrow> (mcpError err, s)
      | Inr p \<Rightarrow>
          (case h_stat H s p of
             Inl err \<Rightarrow>
               (if IsNotExist err then mcpError (''path not found: '' @ path)
                else mcpError (Error err), s)
           | Inr info \<Rightarrow>
               (case (if IsDir info \<and> recursive then h_removeAll H s p else h_remove H s p) of
                  (Some err, s1) \<Rightarrow>
                    (if IsDir info \<and> \<not> recursive \<and> Contains (Error err) ''not empty'' then
                       mcpError (''directory not empty: '' @ path @ ''. use recursive=true'')
                     else if IsPermission err then mcpError (''permission denied: '' @ path)
                     else mcpError (Error err), s1)
                | (None, s1) \<Rightarrow> (mcpSuccess [VStr ''path'', VStr p], s1))))"

definition Mv :: "'h host \<Rightarrow> 'h \<Rightarrow> string \<Rightarrow> string \<Rightarrow> result \<times> 'h" where
  "Mv H s source dest =
     (if source = [] then (mcpError ''source is required'', s)
      else if dest = [] then (mcpError ''dest is required'', s)
      else case ExpandPath (h_getenv H) source of
        Inl err \<Rightarrow> (mcpError err, s)
      | Inr src \<Rightarrow>
          (case ExpandPath (h_getenv H) dest of
             Inl err \<Rightarrow> (mcpError err, s)
           | Inr dst \<Rightarrow>
               (case h_stat H s src of
                  Inl err \<Rightarrow>
                    (if IsNotExist err then mcpError (''source not found: '' @ source)
                     else mcpError (Error err), s)
                | Inr _ \<Rightarrow>
                    (case h_rename H s src dst of
                       (Some err, s1) \<Rightarrow>
                         (if IsPermission err then mcpError (''permission denied: '' @ source)
                          else mcpError (Error err), s1)
                     | (None, s1) \<Rightarrow>
                         (mcpSuccess [VStr ''source'', VStr src, VStr ''dest'', VStr dst], s1)))))"

definition Cp :: "'h host \<Rightarrow> 'h \<Rightarrow> string \<Rightarrow> string \<Rightarrow> bool \<Rightarrow> result \<times> 'h" where
  "Cp H s source dest recursive =
     (if source = [] then (mcpError ''source is required'', s)
      else if dest = [] then (mcpError ''dest is required'', s)
      else case ExpandPath (h_getenv H) source of
        Inl err \<Rightarrow> (mcpError err, s)
      | Inr src \<Rightarrow>
          (case ExpandPath (h_getenv H) dest of
             Inl err \<Rightarrow> (mcpError err, s)
           | Inr dst \<Rightarrow>
               (case h_stat H s src of
                  Inl err \<Rightarrow>
                    (if IsNotExist err then mcpError (''source not found: '' @ source)
                     else mcpError (Error err), s)
                | Inr info \<Rightarrow>
                    if IsDir info \<and> \<not> recursive then
                      (mcpError ''source is a directory. use recursive=true'', s)
                    else
                      (case h_copy H s src dst of
                         (Some err, s1) \<Rightarrow>
                           (if IsPermission err then mcpError (''permission denied: '' @ source)
                            else mcpError (Error err), s1)
                       | (None, s1) \<Rightarrow>
                           (mcpSuccess [VStr ''source'', VStr src, VStr ''dest'', VStr dst], s1)))))"

section \<open>The dispatcher (cmd/fs/main.go)\<close>

text \<open>
  The flag values after cobra has parsed the command line; every flag is a string,
  with the defaults of \<open>main\<close> when it was not given. \<open>getFlagOrFatal\<close> reads a
  string flag that \<open>main\<close> has registered, which cannot fail.
\<close>

record flags =
  fl_path :: string
  fl_source :: string
  fl_dest :: string
  fl_content :: string
  fl_recursive :: string
  fl_parents :: string
  fl_create_dirs :: string

datatype command =
  CmdRead | CmdWrite | CmdList | CmdExists | CmdStat | CmdMkdir | CmdRm | CmdMv | CmdCp

definition subCommandMap :: "string \<Rightarrow> command option" where
  "subCommandMap =
     [''read'' \<mapsto> CmdRead, ''write'' \<mapsto> CmdWrite, ''list'' \<mapsto> CmdList,
      ''exists'' \<mapsto> CmdExists, ''stat'' \<mapsto> CmdStat, ''mkdir'' \<mapsto> CmdMkdir,
      ''rm'' \<mapsto> CmdRm, ''mv'' \<mapsto> CmdMv, ''cp'' \<mapsto> CmdCp]"

text \<open>One call of the operation library, with its arguments.\<close>

datatype request =
    ReqRead string
  | ReqWrite string string bool
  | ReqList string bool
  | ReqExists string
  | ReqStat string
  | ReqMkdir string bool
  | ReqRm string bool
  | ReqMv string string
  | ReqCp string string bool

fun perform :: "'h host \<Rightarrow> 'h \<Rightarrow> request \<Rightarrow> result \<times> 'h" where
  "perform H s (ReqRead path) = (Read H s path, s)"
| "perform H s (ReqWrite path content createDirs) = Write H s path content createDirs"
| "perform H s (ReqList path recursive) = (List H s path recursive, s)"
| "perform H s (ReqExists path) = (Exists H s path, s)"
| "perform H s (ReqStat path) = (Stat H s path, s)"
| "perform H s (ReqMkdir path parents) = Mkdir H s path parents"
| "perform H s (ReqRm path recursive) = Rm H s path recursive"
| "perform H s (ReqMv source dest) = Mv H s source dest"
| "perform H s (ReqCp source dest recursive) = Cp H s source dest recursive"

text \<open>
  What one run of the process leaves: the values it printed with \<open>mcpOutput\<close>, its exit
  status and the host state. Writing to standard output is taken to succeed.
\<close>

record 'h outcome =
  printed :: "result list"
  exit_status :: nat
  final_state :: "'h"

definition ParseBool :: "string \<Rightarrow> bool option" where
  "ParseBool str =
     (if str \<in> set [''1'', ''t'', ''T'', ''TRUE'', ''true'', ''True''] then Some True
      else if str \<in> set [''0'', ''f'', ''F'', ''FALSE'', ''false'', ''False''] then Some False
      else None)"

text \<open>\<open>toBool\<close> and \<open>getBool\<close>: \<open>Inl\<close> is the message handed to \<open>mcpFatalError\<close>.\<close>

definition toBool :: "'h host \<Rightarrow> string \<Rightarrow> string + bool" where
  "toBool H str =
     (case ParseBool str of
        Some b \<Rightarrow> Inr b
      | None \<Rightarrow>
          Inl (''failed to parse bool '' @ str @ '': strconv.ParseBool: parsing '' @ h_quote H str
               @ '': invalid syntax''))"

definition getBool :: "result \<Rightarrow> string \<Rightarrow> string + bool" where
  "getBool m key =
     (case m key of
        Some (VBool v) \<Rightarrow> Inr v
      | _ \<Rightarrow> Inl (''value '' @ key @ '' is not a boolean: false''))"

definition mcpFatalError :: "string \<Rightarrow> result list \<Rightarrow> 'h \<Rightarrow> 'h outcome" where
  "mcpFatalError msg out s =
     \<lparr>printed = out @ [[''error'' \<mapsto> VStr msg, ''success'' \<mapsto> VBool False]],
      exit_status = 1, final_state = s\<rparr>"

text \<open>The arguments of the library call, read from the flags of the command.\<close>

definition build_request :: "'h host \<Rightarrow> command \<Rightarrow> flags \<Rightarrow> string + request" where
  "build_request H cmd f =
     (case cmd of
        CmdRead \<Rightarrow> Inr (ReqRead (fl_path f))
      | CmdWrite \<Rightarrow>
          (case toBool H (fl_create_dirs f) of
             Inl msg \<Rightarrow> Inl msg
           | Inr createDirs \<Rightarrow> Inr (ReqWrite (fl_path f) (fl_content f) createDirs))
      | CmdList \<Rightarrow>
          (case toBool H (fl_recursive f) of
             Inl msg \<Rightarrow> Inl msg
           | Inr recursive \<Rightarrow> Inr (ReqList (fl_path f) recursive))
      | CmdExists \<Rightarrow> Inr (ReqExists (fl_path f))
      | CmdStat \<Rightarrow> Inr (ReqStat (fl_path f))
      | CmdMkdir \<Rightarrow>
          (case toBool H (fl_parents f) of
             Inl msg \<Rightarrow> Inl msg
           | Inr parents \<Rightarrow> Inr (ReqMkdir (fl_path f) parents))
      | CmdRm \<Rightarrow>
          (case toBool H (fl_recursive f) of
             Inl msg \<Rightarrow> Inl msg
           | Inr recursive \<Rightarrow> Inr (ReqRm (fl_path f) recursive))
      | CmdMv \<Rightarrow> Inr (ReqMv (fl_source f) (fl_dest f))
      | CmdCp \<Rightarrow>
          (case toBool H (fl_recursive f) of
             Inl msg \<Rightarrow> Inl msg
           | Inr recursive \<Rightarrow> Inr (ReqCp (fl_source f) (fl_dest f) recursive)))"

text \<open>
  The \<open>RunE\<close> of a subcommand: the result is printed; every command but \<open>exists\<close>
  then exits with status 1 when \<open>success\<close> is not true. Returning \<open>nil\<close> ends the
  process with status 0.
\<close>

definition RunE :: "'h host \<Rightarrow> 'h \<Rightarrow> command \<Rightarrow> flags \<Rightarrow> 'h outcome" where
  "RunE H s cmd f =
     (case build_request H cmd f of
        Inl msg \<Rightarrow> mcpFatalError msg [] s
      | Inr req \<Rightarrow>
          (case perform H s req of
             (res, s1) \<Rightarrow>
               if cmd = CmdExists then \<lparr>printed = [res], exit_status = 0, final_state = s1\<rparr>
               else
                 (case getBool res ''success'' of
                    Inl msg \<Rightarrow> mcpFatalError msg [res] s1
                  | Inr ok \<Rightarrow>
                      \<lparr>printed = [res], exit_status = (if ok then 0 else 1), final_state = s1\<rparr>)))"

text \<open>
  The root command, reached when no subcommand is named: a non-empty \<open>--operation\<close>
  selects the subcommand; an unknown one is the error that \<open>main\<close> reports with
  \<open>mcpFatalError\<close>. Without an operation the help text is shown.
\<close>

definition rootRunE :: "'h host \<Rightarrow> 'h \<Rightarrow> string \<Rightarrow> flags \<Rightarrow> 'h outcome" where
  "rootRunE H s operation f =
     (if operation \<noteq> [] then
        (case subCommandMap operation of
           None \<Rightarrow> mcpFatalError (''unknown operation: '' @ operation) [] s
         | Some subCmd \<Rightarrow> RunE H s subCmd f)
      else \<lparr>printed = [], exit_status = 0, final_state = s\<rparr>)"

section \<open>An in-memory host\<close>

text \<open>
  A small in-memory file system that implements the host primitives: a store from path
  strings to nodes, a file with its permission bits and bytes or a directory with its
  permission bits. It plays the part of a test double for the operating system: it
  shows that the assumptions made about a host below can be met, and it runs the
  concrete examples. Paths are identified as strings (the operations hand it cleaned
  paths); there is no working directory, no link, no ownership and no clock
  (modification times read 0).
\<close>

datatype node = MFile nat string | MDir nat

type_synonym memfs = "(string \<times> node) list"

definition is_file_at :: "memfs \<Rightarrow> string \<Rightarrow> bool" where
  "is_file_at s q = (case map_of s q of Some (MFile _ _) \<Rightarrow> True | _ \<Rightarrow> False)"

definition is_dir_at :: "memfs \<Rightarrow> string \<Rightarrow> bool" where
  "is_dir_at s q = (case map_of s q of Some (MDir _) \<Rightarrow> True | _ \<Rightarrow> False)"

text \<open>The path itself after its proper prefixes that end before a separator.\<close>

definition path_prefixes :: "string \<Rightarrow> string list" where
  "path_prefixes q = map (\<lambda>i. take i q) (filter (\<lambda>i. q ! i = CHR ''/'') [1..<length q]) @ [q]"

text \<open>A path is blocked when a proper prefix of it names a regular file.\<close>

definition blocked :: "memfs \<Rightarrow> string \<Rightarrow> bool" where
  "blocked s q = list_ex (is_file_at s) (butlast (path_prefixes q))"

definition under :: "string \<Rightarrow> string \<Rightarrow> bool" where
  "under q k = (k \<noteq> q \<and> HasPrefix k (if q = ''/'' then q else q @ ''/''))"

definition m_put :: "memfs \<Rightarrow> string \<Rightarrow> node \<Rightarrow> memfs" where
  "m_put s q n = (q, n) # filter (\<lambda>(k, _). k \<noteq> q) s"

definition m_delete :: "memfs \<Rightarrow> string \<Rightarrow> memfs" where
  "m_delete s q = filter (\<lambda>(k, _). k \<noteq> q) s"

definition m_delete_under :: "memfs \<Rightarrow> string \<Rightarrow> memfs" where
  "m_delete_under s q = filter (\<lambda>(k, _). \<not> under q k) s"

definition host_error :: "errclass \<Rightarrow> string \<Rightarrow> string \<Rightarrow> string \<Rightarrow> oserror" where
  "host_error cls op q text = OsError cls (op @ '' '' @ q @ '': '' @ text)"

definition ENOENT :: "string \<Rightarrow> string \<Rightarrow> oserror" where
  "ENOENT op q = host_error NotExist op q ''no such file or directory''"

definition ENOTDIR :: "string \<Rightarrow> string \<Rightarrow> oserror" where
  "ENOTDIR op q = host_error OtherErr op q ''not a directory''"

definition EISDIR :: "string \<Rightarrow> string \<Rightarrow> oserror" where
  "EISDIR op q = host_error OtherErr op q ''is a directory''"

definition EEXIST :: "string \<Rightarrow> string \<Rightarrow> oserror" where
  "EEXIST op q = host_error OtherErr op q ''file exists''"

definition ENOTEMPTY :: "string \<Rightarrow> string \<Rightarrow> oserror" where
  "ENOTEMPTY op q = host_error OtherErr op q ''directory not empty''"

definition EINVAL :: "string \<Rightarrow> string \<Rightarrow> oserror" where
  "EINVAL op q = host_error OtherErr op q ''invalid argument''"

definition EBUSY :: "string \<Rightarrow> string \<Rightarrow> oserror" where
  "EBUSY op q = host_error OtherErr op q ''device or resource busy''"

definition EROFS :: "string \<Rightarrow> string \<Rightarrow> oserror" where
  "EROFS op q = host_error OtherErr op q ''read-only file system''"

definition node_info :: "node \<Rightarrow> fileinfo" where
  "node_info n =
     (case n of
        MFile perm d \<Rightarrow>
          \<lparr>fi_size = int (length d), fi_mode = of_nat perm AND ModePerm, fi_modTime = 0\<rparr>
      | MDir perm \<Rightarrow>
          \<lparr>fi_size = 4096, fi_mode = ModeDir OR (of_nat perm AND ModePerm), fi_modTime = 0\<rparr>)"

definition m_stat :: "memfs \<Rightarrow> string \<Rightarrow> oserror + fileinfo" where
  "m_stat s q =
     (if blocked s q then Inl (ENOTDIR ''stat'' q)
      else case map_of s q of
        None \<Rightarrow> Inl (ENOENT ''stat'' q)
      | Some n \<Rightarrow> Inr (node_info n))"

definition m_readFile :: "memfs \<Rightarrow> string \<Rightarrow> oserror + string" where
  "m_readFile s q =
     (if blocked s q then Inl (ENOTDIR ''open'' q)
      else case map_of s q of
        None \<Rightarrow> Inl (ENOENT ''open'' q)
      | Some (MDir _) \<Rightarrow> Inl (EISDIR ''read'' q)
      | Some (MFile _ d) \<Rightarrow> Inr d)"

text \<open>Writing keeps the permission bits of a file that exists and creates it otherwise.\<close>

definition m_writeFile :: "memfs \<Rightarrow> string \<Rightarrow> string \<Rightarrow> nat \<Rightarrow> oserror option \<times> memfs" where
  "m_writeFile s q d perm =
     (if blocked s q then (Some (ENOTDIR ''open'' q), s)
      else case map_of s q of
        Some (MDir _) \<Rightarrow> (Some (EISDIR ''open'' q), s)
      | Some (MFile perm0 _) \<Rightarrow> (None, m_put s q (MFile perm0 d))
      | None \<Rightarrow>
          if is_dir_at s (Dir q) then (None, m_put s q (MFile perm d))
          else (Some (ENOENT ''open'' q), s))"

definition m_mkdir :: "memfs \<Rightarrow> string \<Rightarrow> nat \<Rightarrow> oserror option \<times> memfs" where
  "m_mkdir s q perm =
     (if blocked s q then (Some (ENOTDIR ''mkdir'' q), s)
      else case map_of s q of
        Some _ \<Rightarrow> (Some (EEXIST ''mkdir'' q), s)
      | None \<Rightarrow>
          if is_dir_at s (Dir q) then (None, m_put s q (MDir perm))
          else (Some (ENOENT ''mkdir'' q), s))"

text \<open>\<open>MkdirAll\<close> creates the path and every missing prefix of it, unless one is a file.\<close>

definition m_mkdirAll :: "memfs \<Rightarrow> string \<Rightarrow> nat \<Rightarrow> oserror option \<times> memfs" where
  "m_mkdirAll s q perm =
     (if list_ex (is_file_at s) (path_prefixes q) then (Some (ENOTDIR ''mkdir'' q), s)
      else (None, map (\<lambda>a. (a, MDir perm)) (filter (\<lambda>a. map_of s a = None) (remdups (path_prefixes q))) @ s))"

definition m_remove :: "memfs \<Rightarrow> string \<Rightarrow> oserror option \<times> memfs" where
  "m_remove s q =
     (if blocked s q then (Some (ENOTDIR ''remove'' q), s)
      else case map_of s q of
        None \<Rightarrow> (Some (ENOENT ''remove'' q), s)
      | Some (MFile _ _) \<Rightarrow> (None, m_delete s q)
      | Some (MDir _) \<Rightarrow>
          if list_ex (\<lambda>(k, _). under q k) s then (Some (ENOTEMPTY ''remove'' q), s)
          else if q = ''/'' then (Some (EBUSY ''remove'' q), s)
          else if q = ''.'' then (Some (EINVAL ''remove'' q), s)
          else (None, m_delete s q))"

text \<open>
  \<open>RemoveAll\<close> refuses a path that ends in a dot element, reports no error for a path
  that does not exist, and cannot remove the root itself.
\<close>

definition m_removeAll :: "memfs \<Rightarrow> string \<Rightarrow> oserror option \<times> memfs" where
  "m_removeAll s q =
     (if q = ''.'' \<or> HasPrefix (rev q) ''./'' then (Some (EINVAL ''RemoveAll'' q), s)
      else if blocked s q then (Some (ENOTDIR ''unlinkat'' q), s)
      else if q = ''/'' then (Some (EBUSY ''unlinkat'' q), m_delete_under s q)
      else (None, m_delete (m_delete_under s q) q))"

definition m_rename :: "memfs \<Rightarrow> string \<Rightarrow> string \<Rightarrow> oserror option \<times> memfs" where
  "m_rename s a b =
     (if blocked s a \<or> map_of s a = None then (Some (ENOENT ''rename'' a), s)
      else if blocked s b \<or> \<not> is_dir_at s (Dir b) then (Some (ENOENT ''rename'' a), s)
      else if under a b then (Some (EINVAL ''rename'' a), s)
      else if is_dir_at s a \<and> is_file_at s b then (Some (ENOTDIR ''rename'' a), s)
      else if is_file_at s a \<and> is_dir_at s b then (Some (EEXIST ''rename'' a), s)
      else if list_ex (\<lambda>(k, _). under b k) s then (Some (EEXIST ''rename'' a), s)
      else if a = b then (None, s)
      else (None,
            map (\<lambda>(k, n). (if k = a then b else if under a k then b @ drop (length a) k else k, n))
              (m_delete s b)))"

text \<open>Copying a file or a tree creates the directories above the destination.\<close>

definition m_copy :: "memfs \<Rightarrow> string \<Rightarrow> string \<Rightarrow> oserror option \<times> memfs" where
  "m_copy s a b =
     (if blocked s a \<or> map_of s a = None then (Some (ENOENT ''lstat'' a), s)
      else case m_mkdirAll s (Dir b) perm_0755 of
        (Some e, s1) \<Rightarrow> (Some e, s1)
      | (None, s1) \<Rightarrow>
          if is_dir_at s1 a \<and> is_file_at s1 b then (Some (ENOTDIR ''mkdir'' b), s1)
          else if is_file_at s1 a \<and> is_dir_at s1 b then (Some (EISDIR ''open'' b), s1)
          else (None,
                foldl (\<lambda>st (k, n). m_put st (b @ drop (length a) k) n) s1
                  (filter (\<lambda>(k, _). k = a \<or> under a k) s1)))"

definition m_entry :: "string \<times> node \<Rightarrow> direntry" where
  "m_entry kn = \<lparr>de_name = Base (fst kn), de_info = Inr (node_info (snd kn))\<rparr>"

text \<open>The entries of a directory are the paths one element below it, in the order of the store.\<close>

definition m_readDir :: "memfs \<Rightarrow> string \<Rightarrow> oserror + direntry list" where
  "m_readDir s q =
     (if blocked s q then Inl (ENOTDIR ''open'' q)
      else case map_of s q of
        None \<Rightarrow> Inl (ENOENT ''open'' q)
      | Some (MFile _ _) \<Rightarrow> Inl (ENOTDIR ''readdirent'' q)
      | Some (MDir _) \<Rightarrow>
          Inr (map m_entry (filter (\<lambda>(k, _). under q k \<and> Dir k = q) s)))"

definition m_walkDir :: "memfs \<Rightarrow> string \<Rightarrow> visit list" where
  "m_walkDir s q =
     (if blocked s q then [VisitErr q (ENOTDIR ''lstat'' q)]
      else case map_of s q of
        None \<Rightarrow> [VisitErr q (ENOENT ''lstat'' q)]
      | Some n \<Rightarrow>
          VisitEntry q (m_entry (q, n))
            # map (\<lambda>kn. VisitEntry (fst kn) (m_entry kn)) (filter (\<lambda>(k, _). under q k) s))"

text \<open>\<open>Rel\<close> for a target at or below the base, which is all a walk produces.\<close>

definition m_rel :: "string \<Rightarrow> string \<Rightarrow> string + string" where
  "m_rel base targ =
     (if targ = base then Inr ''.''
      else if under base targ then Inr (drop (length (if base = ''/'' then base else base @ ''/'')) targ)
      else Inl (''Rel: can't make '' @ targ @ '' relative to '' @ base))"

text \<open>Quoting of printable text without quotes or backslashes in it.\<close>

definition m_quote :: "string \<Rightarrow> string" where
  "m_quote str = CHR 0x22 # str @ [CHR 0x22]"

definition memfs_host :: "(string \<Rightarrow> string) \<Rightarrow> memfs host" where
  "memfs_host getenv =
     \<lparr>h_getenv = getenv, h_stat = m_stat, h_readFile = m_readFile, h_writeFile = m_writeFile,
      h_mkdirAll = m_mkdirAll, h_mkdir = m_mkdir, h_remove = m_remove,
      h_removeAll = m_removeAll, h_rename = m_rename, h_copy = m_copy,
      h_readDir = m_readDir, h_walkDir = m_walkDir, h_rel = m_rel, h_quote = m_quote\<rparr>"

text \<open>The same store mounted read-only: every change is refused.\<close>

definition readonly_host :: "(string \<Rightarrow> string) \<Rightarrow> memfs host" where
  "readonly_host getenv =
     (memfs_host getenv)
       \<lparr>h_writeFile := (\<lambda>s q d perm. (Some (EROFS ''open'' q), s)),
        h_mkdirAll := (\<lambda>s q perm. (Some (EROFS ''mkdir'' q), s)),
        h_mkdir := (\<lambda>s q perm. (Some (EROFS ''mkdir'' q), s)),
        h_remove := (\<lambda>s q. (Some (EROFS ''remove'' q), s)),
        h_removeAll := (\<lambda>s q. (Some (EROFS ''unlinkat'' q), s)),
        h_rename := (\<lambda>s a b. (Some (EROFS ''rename'' a), s)),
        h_copy := (\<lambda>s a b. (Some (EROFS ''open'' b), s))\<rparr>"

text \<open>A process environment with \<open>HOME\<close> set, and one with nothing set.\<close>

definition env_home :: "string \<Rightarrow> string" where
  "env_home name = (if name = ''HOME'' then ''/home/u'' else [])"

definition env_empty :: "string \<Rightarrow> string" where
  "env_empty name = []"

text \<open>A store to run examples on.\<close>

definition example_store :: memfs where
  "example_store =
     [(''/'', MDir 493), (''/home'', MDir 493), (''/home/u'', MDir 493),
      (''/etc'', MDir 493), (''/etc/hosts'', MFile 420 ''127.0.0.1 localhost''),
      (''/d'', MDir 493), (''/d/f.txt'', MFile 420 ''x'')]"

text \<open>
  A host with a sink in the manner of \<open>/dev/null\<close>: writing to it reports no error and
  stores nothing, and it reads as empty.
\<close>

definition sink_host :: "(string \<Rightarrow> string) \<Rightarrow> memfs host" where
  "sink_host getenv =
     (memfs_host getenv)
       \<lparr>h_writeFile :=
          (\<lambda>s q d perm. if q = ''/dev/null'' then (None, s) else m_writeFile s q d perm)\<rparr>"

definition sink_store :: memfs where
  "sink_store = [(''/'', MDir 493), (''/dev'', MDir 493), (''/dev/null'', MFile 438 [])]"

text \<open>A store with an empty directory whose name contains the words \<open>not empty\<close>.\<close>

definition named_store :: memfs where
  "named_store = [(''/'', MDir 493), (''/not empty'', MDir 493)]"

text \<open>Flag values as \<open>main\<close> registers them, with an empty path.\<close>

definition default_flags :: flags where
  "default_flags =
     \<lparr>fl_path = [], fl_source = [], fl_dest = [], fl_content = [], fl_recursive = ''false'',
      fl_parents = ''false'', fl_create_dirs = ''false''\<rparr>"

section \<open>Specification predicates\<close>

text \<open>
  The shape of a result: an error result as \<open>mcpError\<close> builds it, or a result whose
  \<open>success\<close> is true and that has no \<open>error\<close> field.
\<close>

definition well_formed :: "result \<Rightarrow> bool" where
  "well_formed r =
     ((\<exists>msg. r = mcpError msg) \<or> (r ''success'' = Some (VBool True) \<and> r ''error'' = None))"

definition result_invariant :: "result \<Rightarrow> bool" where
  "result_invariant r =
     ((r ''success'' = Some (VBool False) \<longrightarrow> dom r = {''success'', ''error''})
      \<and> (r ''success'' = Some (VBool True) \<longrightarrow> ''error'' \<notin> dom r))"

text \<open>
  A lexically clean path: \<open>.\<close>, the root, or a sequence of elements none of which is
  empty (no doubled or trailing separator) or \<open>.\<close>, and with \<open>..\<close> only as the leading
  elements of a path that is not rooted.
\<close>

fun dotdots_lead :: "string list \<Rightarrow> bool" where
  "dotdots_lead [] = True"
| "dotdots_lead (c # cs) = (if c = ''..'' then dotdots_lead cs else list_all (\<lambda>x. x \<noteq> ''..'') cs)"

definition proper_element :: "string \<Rightarrow> bool" where
  "proper_element c = (c \<noteq> [] \<and> c \<noteq> ''.'' \<and> CHR ''/'' \<notin> set c)"

definition lexically_clean :: "string \<Rightarrow> bool" where
  "lexically_clean q =
     (q = ''.'' \<or> q = ''/'' \<or>
      (let cs = splitsep (if is_rooted q then tl q else q)
       in list_all proper_element cs
          \<and> (if is_rooted q then list_all (\<lambda>x. x \<noteq> ''..'') cs else dotdots_lead cs)))"

text \<open>The invariant of the elements that \<open>Clean\<close> has kept.\<close>

definition kept :: "bool \<Rightarrow> string list \<Rightarrow> bool" where
  "kept rooted out =
     (list_all proper_element out
      \<and> (if rooted then list_all (\<lambda>x. x \<noteq> ''..'') out else dotdots_lead out))"

text \<open>
  An assumption about a host, met by the in-memory host: a directory that \<open>MkdirAll\<close>
  made without error is then a directory.
\<close>

definition created_directory_exists :: "'h host \<Rightarrow> bool" where
  "created_directory_exists H =
     (\<forall>s q perm s'. h_mkdirAll H s q perm = (None, s') \<longrightarrow>
        (\<exists>info. h_stat H s' q = Inr info \<and> IsDir info))"

text \<open>The number an octal numeral denotes.\<close>

definition octal_value :: "string \<Rightarrow> nat" where
  "octal_value str = foldl (\<lambda>acc c. 8 * acc + (byte c - 48)) 0 str"

section \<open>The library functions on documented examples\<close>

text \<open>The definitions of the library functions, run on examples from their documentation and tests.\<close>

lemma Clean_examples:
  "Clean [] = ''.''" "Clean ''abc'' = ''abc''" "Clean ''abc/def'' = ''abc/def''"
  "Clean ''../../abc'' = ''../../abc''" "Clean ''/'' = ''/''" "Clean ''abc/'' = ''abc''"
  "Clean ''abc//def//ghi'' = ''abc/def/ghi''" "Clean ''//abc//'' = ''/abc''"
  "Clean ''abc/./def'' = ''abc/def''" "Clean ''/./abc/def'' = ''/abc/def''"
  "Clean ''abc/def/ghi/../jkl'' = ''abc/def/jkl''" "Clean ''abc/def/../..'' = ''.''"
  "Clean ''/abc/def/../..'' = ''/''" "Clean ''abc/def/../../..'' = ''..''"
  "Clean ''/abc/def/../../..'' = ''/''"
  "Clean ''abc/def/../../../ghi/jkl/../../../mno'' = ''../../mno''"
  "Clean ''/../abc'' = ''/abc''" "Clean ''abc/./../def'' = ''def''"
  "Clean ''abc/../../././../def'' = ''../../def''"
  by code_simp+

lemma path_examples:
  "Dir ''/a/b/c.txt'' = ''/a/b''" "Dir ''c.txt'' = ''.''" "Dir ''/c.txt'' = ''/''" "Dir [] = ''.''"
  "Base ''/a/b/c.txt'' = ''c.txt''" "Base ''/a/b/'' = ''b''" "Base ''/'' = ''/''" "Base [] = ''.''"
  "Join [''/a'', ''b''] = ''/a/b''" "Join [''a'', ''../b''] = ''b''" "Join [[], ''a''] = ''a''"
  by code_simp+

lemma Expand_examples:
  "Expand ''$HOME/x'' env_home = ''/home/u/x''" "Expand ''${HOME}/x'' env_home = ''/home/u/x''"
  "Expand ''a$'' env_home = ''a$''" "Expand ''$/x'' env_home = ''$/x''"
  "Expand ''${}x'' env_home = ''x''" "Expand ''$UNSET/x'' env_home = ''/x''"
  by code_simp+

lemma Valid_examples:
  "Valid ''plain text''" "Valid [CHR 0xC3, CHR 0xA9]" "Valid [CHR 0xE2, CHR 0x82, CHR 0xAC]"
  "Valid [CHR 0xF0, CHR 0x9F, CHR 0x98, CHR 0x80]"
  "\<not> Valid [CHR 0xFF]" "\<not> Valid [CHR 0xC0, CHR 0x80]" "\<not> Valid [CHR 0xED, CHR 0xA0, CHR 0x80]"
  "\<not> Valid [CHR 0xF4, CHR 0x90, CHR 0x80, CHR 0x80]" "\<not> Valid [CHR 0xC3]"
  by code_simp+

text \<open>The cases of \<open>TestExpandPath\<close> (internal/fs/fs_test.go), with \<open>HOME=/home/u\<close>.\<close>

lemma TestExpandPath:
  "ExpandPath env_home ''/tmp/test'' = Inr ''/tmp/test''"
  "ExpandPath env_home ''/tmp/../test'' = Inr ''/test''"
  "ExpandPath env_home ''~/test'' = Inr (Join [''/home/u'', ''test''])"
  "ExpandPath env_home ''~'' = Inr ''/home/u''"
  "ExpandPath env_home ''$HOME/test'' \<noteq> Inr ''$HOME/test''"
  by code_simp+

section \<open>The shape of results\<close>

lemma dom_mcpError: "dom (mcpError msg) = {''success'', ''error''}"
  by (auto simp: mcpError_def split: if_splits)

lemma mcpError_success: "mcpError msg ''success'' = Some (VBool False)"
  by (simp add: mcpError_def)

lemma mcpError_well_formed: "well_formed (mcpError msg)"
  unfolding well_formed_def by blast

lemma success1_well_formed:
  "k \<noteq> ''error'' \<Longrightarrow> k \<noteq> ''success'' \<Longrightarrow> well_formed (mcpSuccess [VStr k, v])"
  by (simp add: well_formed_def mcpSuccess_def)

lemma success2_well_formed:
  "k \<noteq> ''error'' \<Longrightarrow> k \<noteq> ''success'' \<Longrightarrow> k' \<noteq> ''error'' \<Longrightarrow> k' \<noteq> ''success'' \<Longrightarrow>
   well_formed (mcpSuccess [VStr k, v, VStr k', v'])"
  by (simp add: well_formed_def mcpSuccess_def)

lemma Read_well_formed: "well_formed (Read H s path)"
  by (simp add: Read_def mcpError_well_formed success1_well_formed split: sum.splits)

lemma Write_well_formed: "well_formed (fst (Write H s path content createDirs))"
  by (simp add: Write_def mcpError_well_formed success1_well_formed
      split: sum.splits prod.splits option.splits)

lemma List_well_formed: "well_formed (List H s path recursive)"
  by (simp add: List_def mcpError_well_formed success2_well_formed split: sum.splits)

lemma exists_found_well_formed:
  "well_formed ((mcpSuccess [VStr ''exists'', VBool True, VStr ''path'', VStr p])
      (''type'' \<mapsto> t, ''is_file'' \<mapsto> f, ''is_dir'' \<mapsto> d))"
  by (simp add: well_formed_def mcpSuccess_def)

lemma Exists_well_formed: "well_formed (Exists H s path)"
  by (simp add: Exists_def mcpError_well_formed success2_well_formed exists_found_well_formed
      split: sum.splits)

lemma stat_success_well_formed:
  "well_formed (mcpSuccess
     [VStr ''path'', v1, VStr ''name'', v2, VStr ''type'', v3, VStr ''size'', v4,
      VStr ''mode'', v5, VStr ''modified'', v6, VStr ''accessed'', v7, VStr ''created'', v8,
      VStr ''is_file'', v9, VStr ''is_dir'', v10, VStr ''is_symlink'', v11])"
  by (simp add: well_formed_def mcpSuccess_def)

lemma Stat_well_formed: "well_formed (Stat H s path)"
  by (simp add: Stat_def mcpError_well_formed stat_success_well_formed split: sum.splits)

lemma Mkdir_well_formed: "well_formed (fst (Mkdir H s path parents))"
  by (simp add: Mkdir_def mcpError_well_formed success1_well_formed success2_well_formed
      split: sum.splits prod.splits option.splits)

lemma Rm_well_formed: "well_formed (fst (Rm H s path recursive))"
  by (simp add: Rm_def mcpError_well_formed success1_well_formed
      split: sum.splits prod.splits option.splits)

lemma Mv_well_formed: "well_formed (fst (Mv H s source dest))"
  by (simp add: Mv_def mcpError_well_formed success2_well_formed
      split: sum.splits prod.splits option.splits)

lemma Cp_well_formed: "well_formed (fst (Cp H s source dest recursive))"
  by (simp add: Cp_def mcpError_well_formed success2_well_formed
      split: sum.splits prod.splits option.splits)

lemma perform_well_formed: "well_formed (fst (perform H s req))"
  by (cases req)
    (simp_all add: Read_well_formed Write_well_formed List_well_formed Exists_well_formed
      Stat_well_formed Mkdir_well_formed Rm_well_formed Mv_well_formed Cp_well_formed)

lemma well_formed_cases:
  assumes "well_formed r"
  obtains (failure) msg where "r = mcpError msg"
    | (success) "r ''success'' = Some (VBool True)" "r ''error'' = None"
proof -
  from assms have "(\<exists>msg. r = mcpError msg)
      \<or> (r ''success'' = Some (VBool True) \<and> r ''error'' = None)"
    by (simp add: well_formed_def)
  then show thesis
  proof (elim disjE exE conjE)
    fix msg assume "r = mcpError msg"
    then show thesis by (rule failure)
  next
    assume "r ''success'' = Some (VBool True)" "r ''error'' = None"
    then show thesis by (rule success)
  qed
qed

lemma well_formed_invariant:
  assumes "well_formed r"
  shows "result_invariant r"
  using assms
proof (cases rule: well_formed_cases)
  case (failure msg)
  then show ?thesis
    by (simp add: result_invariant_def dom_mcpError mcpError_success)
next
  case success
  then show ?thesis
    by (simp add: result_invariant_def domIff)
qed

lemma well_formed_success:
  assumes "well_formed r"
  shows "\<exists>b. r ''success'' = Some (VBool b)"
  using assms
  by (cases rule: well_formed_cases) (auto simp: mcpError_success)

text \<open>
  C1: whatever the operation, its arguments and the host, a result whose \<open>success\<close> is
  false has exactly the fields \<open>success\<close> and \<open>error\<close>, and a result whose \<open>success\<close>
  is true has no \<open>error\<close> field.
\<close>

theorem result_shape: "result_invariant (fst (perform H s req))"
  by (rule well_formed_invariant [OF perform_well_formed])

theorem result_shape_witness:
  "fst (perform (memfs_host env_home) example_store (ReqRead [])) ''success'' = Some (VBool False)
   \<and> dom (fst (perform (memfs_host env_home) example_store (ReqRead []))) = {''success'', ''error''}
   \<and> fst (perform (memfs_host env_home) example_store (ReqStat ''/etc/hosts'')) ''success''
       = Some (VBool True)
   \<and> ''error'' \<notin> dom (fst (perform (memfs_host env_home) example_store (ReqStat ''/etc/hosts'')))"
proof -
  have f: "fst (perform (memfs_host env_home) example_store (ReqRead [])) ''success''
      = Some (VBool False)"
    by (simp add: Read_def mcpError_def)
  have t: "fst (perform (memfs_host env_home) example_store (ReqStat ''/etc/hosts'')) ''success''
      = Some (VBool True)"
    by code_simp
  from f result_shape [of "memfs_host env_home" example_store "ReqRead []"]
  have d: "dom (fst (perform (memfs_host env_home) example_store (ReqRead [])))
      = {''success'', ''error''}"
    unfolding result_invariant_def by blast
  from t result_shape [of "memfs_host env_home" example_store "ReqStat ''/etc/hosts''"]
  have e: "''error'' \<notin> dom (fst (perform (memfs_host env_home) example_store (ReqStat ''/etc/hosts'')))"
    unfolding result_invariant_def by blast
  from f d t e show ?thesis by blast
qed

text \<open>
  C10: whatever the operation, its arguments and the host, the result has the field
  \<open>success\<close>, and its value is a boolean.
\<close>

theorem success_always_present: "\<exists>b. fst (perform H s req) ''success'' = Some (VBool b)"
  by (rule well_formed_success [OF perform_well_formed])


theorem success_always_present_witness:
  "\<exists>b. fst (perform (memfs_host env_home) example_store (ReqList ''/d'' False)) ''success''
     = Some (VBool b)"
  by (rule success_always_present)

section \<open>The path resolver cleans its result\<close>

lemma splitsep_nonempty: "splitsep s \<noteq> []"
  by (induction s) (auto split: list.splits)

lemma splitsep_no_sep: "c \<in> set (splitsep s) \<Longrightarrow> CHR ''/'' \<notin> set c"
proof (induction s arbitrary: c)
  case Nil
  then show ?case by simp
next
  case (Cons a s)
  show ?case
  proof (cases "a = CHR ''/''")
    case True
    with Cons show ?thesis by auto
  next
    case False
    obtain x xs where sp: "splitsep s = x # xs"
      using splitsep_nonempty [of s] by (cases "splitsep s") auto
    with False Cons.prems have "c = a # x \<or> c \<in> set xs" by auto
    with False sp Cons.IH show ?thesis by auto
  qed
qed

lemma splitsep_plain: "CHR ''/'' \<notin> set x \<Longrightarrow> splitsep x = [x]"
  by (induction x) auto

lemma splitsep_append: "CHR ''/'' \<notin> set x \<Longrightarrow> splitsep (x @ CHR ''/'' # r) = x # splitsep r"
  by (induction x) auto

lemma splitsep_joinsep:
  "out \<noteq> [] \<Longrightarrow> list_all (\<lambda>c. CHR ''/'' \<notin> set c) out \<Longrightarrow> splitsep (joinsep out) = out"
proof (induction out rule: joinsep.induct)
  case 1
  then show ?case by simp
next
  case (2 x)
  then show ?case by (simp add: splitsep_plain)
next
  case (3 x y ys)
  then show ?case by (simp add: splitsep_append)
qed

lemma dotdots_lead_snoc: "dotdots_lead out \<Longrightarrow> c \<noteq> ''..'' \<Longrightarrow> dotdots_lead (out @ [c])"
  by (induction out) auto

lemma list_all_butlast: "list_all P out \<Longrightarrow> list_all P (butlast out)"
  by (induction out) auto

lemma dotdots_lead_butlast: "dotdots_lead out \<Longrightarrow> dotdots_lead (butlast out)"
  by (induction out) (auto simp: list_all_butlast)

lemma dotdots_lead_last:
  "dotdots_lead out \<Longrightarrow> out \<noteq> [] \<Longrightarrow> last out = ''..'' \<Longrightarrow> list_all (\<lambda>x. x = ''..'') out"
proof (induction out)
  case Nil
  then show ?case by simp
next
  case (Cons c cs)
  show ?case
  proof (cases "cs = []")
    case True
    with Cons.prems show ?thesis by simp
  next
    case False
    with Cons.prems have l: "last cs = ''..''" by simp
    with False have "''..'' \<in> set cs" by (metis last_in_set)
    with Cons.prems have "c = ''..''" by (auto simp: list_all_iff split: if_splits)
    with Cons False l show ?thesis by simp
  qed
qed

lemma all_dotdots_snoc: "list_all (\<lambda>x. x = ''..'') out \<Longrightarrow> dotdots_lead (out @ [''..''])"
  by (induction out) auto

lemma dotdots_lead_snoc_dotdot:
  "dotdots_lead out \<Longrightarrow> out = [] \<or> last out = ''..'' \<Longrightarrow> dotdots_lead (out @ [''..''])"
  by (cases "out = []") (auto intro: all_dotdots_snoc dotdots_lead_last)

lemma dotdots_lead_before:
  "dotdots_lead (acc @ ''..'' # rest) \<Longrightarrow> acc = [] \<or> last acc = ''..''"
  by (induction acc) (auto simp: list_all_iff split: if_splits)

lemma kept_step:
  assumes "kept rooted out" and "CHR ''/'' \<notin> set c"
  shows "kept rooted (clean_step rooted out c)"
proof -
  note bl = list_all_butlast
  show ?thesis
  proof (cases "c = [] \<or> c = ''.''")
    case True
    with assms show ?thesis by (simp add: clean_step_def)
  next
    case n1: False
    show ?thesis
    proof (cases "c = ''..''")
      case True
      show ?thesis
      proof (cases "out \<noteq> [] \<and> last out \<noteq> ''..''")
        case bt: True
        with True n1 assms show ?thesis
          by (simp add: clean_step_def kept_def bl dotdots_lead_butlast)
      next
        case False
        with True n1 assms show ?thesis
          by (auto simp: clean_step_def kept_def proper_element_def dotdots_lead_snoc_dotdot)
      qed
    next
      case False
      with n1 assms show ?thesis
        by (auto simp: clean_step_def kept_def proper_element_def dotdots_lead_snoc)
    qed
  qed
qed

lemma kept_foldl:
  "kept rooted acc \<Longrightarrow> (\<forall>c\<in>set cs. CHR ''/'' \<notin> set c) \<Longrightarrow>
   kept rooted (foldl (clean_step rooted) acc cs)"
  by (induction cs arbitrary: acc) (simp_all add: kept_step)

lemma kept_Clean: "kept (is_rooted p) (foldl (clean_step (is_rooted p)) [] (splitsep p))"
  by (rule kept_foldl) (simp_all add: kept_def splitsep_no_sep)

lemma foldl_kept_id:
  "kept rooted (acc @ out) \<Longrightarrow> foldl (clean_step rooted) acc out = acc @ out"
proof (induction out arbitrary: acc)
  case Nil
  then show ?case by simp
next
  case (Cons c out)
  have pe: "proper_element c"
    using Cons.prems by (simp add: kept_def)
  have step: "clean_step rooted acc c = acc @ [c]"
  proof (cases "c = ''..''")
    case True
    with Cons.prems have nr: "\<not> rooted" and "dotdots_lead (acc @ ''..'' # out)"
      by (auto simp: kept_def split: if_splits)
    then have "acc = [] \<or> last acc = ''..''"
      by (auto dest: dotdots_lead_before)
    with True nr show ?thesis by (auto simp: clean_step_def)
  next
    case False
    with pe show ?thesis by (simp add: clean_step_def proper_element_def)
  qed
  from Cons.prems have "kept rooted ((acc @ [c]) @ out)" by simp
  from Cons.IH [OF this] step show ?case by simp
qed


lemma joinsep_Cons: "out \<noteq> [] \<Longrightarrow> joinsep out = hd out @ (if tl out = [] then [] else CHR ''/'' # joinsep (tl out))"
  by (cases out rule: joinsep.cases) auto

lemma joinsep_starts:
  assumes "out \<noteq> []" and "list_all proper_element out"
  shows "joinsep out \<noteq> [] \<and> hd (joinsep out) \<noteq> CHR ''/''"
proof -
  from assms have pe: "proper_element (hd out)" by (cases out) auto
  then obtain a as where h: "hd out = a # as" and "a \<noteq> CHR ''/''"
    by (cases "hd out") (auto simp: proper_element_def)
  with joinsep_Cons [OF assms(1)] show ?thesis by simp
qed

lemma proper_no_sep: "list_all proper_element out \<Longrightarrow> list_all (\<lambda>c. CHR ''/'' \<notin> set c) out"
  by (induction out) (auto simp: proper_element_def)

lemma Clean_root: "Clean ''/'' = ''/''"
  by (simp add: Clean_def is_rooted_def clean_step_def render_path_def)

lemma Clean_dot: "Clean ''.'' = ''.''"
  by (simp add: Clean_def is_rooted_def clean_step_def render_path_def)

lemma render_rooted:
  assumes "out \<noteq> []" and "kept True out"
  shows "render_path True out = CHR ''/'' # joinsep out"
  by (simp add: render_path_def)

lemma render_relative:
  assumes "out \<noteq> []" and "kept False out"
  shows "render_path False out = joinsep out"
  using joinsep_starts [OF assms(1)] assms(2) by (simp add: render_path_def kept_def)

lemma Clean_render:
  assumes "kept rooted out"
  shows "Clean (render_path rooted out) = render_path rooted out"
proof (cases "out = []")
  case True
  then show ?thesis
    by (cases rooted) (simp_all add: render_path_def Clean_root Clean_dot)
next
  case False
  from assms have pe: "list_all proper_element out" by (simp add: kept_def)
  have sp: "splitsep (joinsep out) = out"
    by (rule splitsep_joinsep [OF False proper_no_sep [OF pe]])
  have fo: "foldl (clean_step rooted) [] out = out"
    using foldl_kept_id [of rooted "[]" out] assms by simp
  show ?thesis
  proof (cases rooted)
    case True
    with assms False have r: "render_path rooted out = CHR ''/'' # joinsep out"
      by (simp add: render_rooted)
    have "Clean (CHR ''/'' # joinsep out) = render_path True (foldl (clean_step True) [] ([] # out))"
      by (simp add: Clean_def is_rooted_def sp)
    also have "\<dots> = render_path True out"
      using fo True by (simp add: clean_step_def)
    finally show ?thesis using r True by simp
  next
    case nr: False
    with assms False have r: "render_path rooted out = joinsep out"
      by (simp add: render_relative)
    from joinsep_starts [OF False pe] have "\<not> is_rooted (joinsep out)"
      by (cases "joinsep out") (auto simp: is_rooted_def)
    then have "Clean (joinsep out) = render_path False (foldl (clean_step False) [] out)"
      by (simp add: Clean_def sp)
    with fo nr r show ?thesis by simp
  qed
qed

lemma lexically_clean_render:
  assumes "kept rooted out"
  shows "lexically_clean (render_path rooted out)"
proof (cases "out = []")
  case True
  then show ?thesis
    by (cases rooted) (simp_all add: render_path_def lexically_clean_def)
next
  case False
  from assms have pe: "list_all proper_element out" by (simp add: kept_def)
  have sp: "splitsep (joinsep out) = out"
    by (rule splitsep_joinsep [OF False proper_no_sep [OF pe]])
  show ?thesis
  proof (cases rooted)
    case True
    with assms False have r: "render_path rooted out = CHR ''/'' # joinsep out"
      by (simp add: render_rooted)
    from assms True pe show ?thesis
      unfolding r lexically_clean_def by (simp add: is_rooted_def sp kept_def)
  next
    case nr: False
    with assms False have r: "render_path rooted out = joinsep out"
      by (simp add: render_relative)
    from joinsep_starts [OF False pe] have "\<not> is_rooted (joinsep out)"
      by (cases "joinsep out") (auto simp: is_rooted_def)
    with assms nr pe show ?thesis
      unfolding r lexically_clean_def by (simp add: sp kept_def)
  qed
qed

lemma Clean_idempotent: "Clean (Clean p) = Clean p"
  unfolding Clean_def [of p] by (rule Clean_render [OF kept_Clean])

lemma Clean_lexically_clean: "lexically_clean (Clean p)"
  unfolding Clean_def [of p] by (rule lexically_clean_render [OF kept_Clean])

lemma ExpandPath_is_Clean: "ExpandPath getenv p = Inr q \<Longrightarrow> \<exists>x. q = Clean x"
  by (auto simp: ExpandPath_def Let_def split: if_splits sum.splits)

lemma Expand_no_dollar: "CHR ''$'' \<notin> set q \<Longrightarrow> Expand q mapping = q"
  by (induction q) auto

lemma ExpandPath_fixed:
  assumes "Clean q = q" and "CHR ''$'' \<notin> set q" and "q \<noteq> ''~''" and "\<not> HasPrefix q ''~/''"
  shows "ExpandPath getenv q = Inr q"
  using assms by (simp add: ExpandPath_def Expand_no_dollar)

text \<open>
  C3 (as amended): when resolution succeeds, on any return path (the home-directory
  branches included), the resolved path is a fixed point of \<open>Clean\<close> and is lexically
  clean: no doubled or trailing separator, no \<open>.\<close> element unless the path is \<open>.\<close>
  itself, and \<open>..\<close> only as leading elements of a path that is not rooted. Resolving the
  resolved path gives the same path whenever it has no dollar sign, is not \<open>~\<close> and does
  not start with \<open>~/\<close>.
\<close>

theorem resolved_path_is_clean:
  assumes "ExpandPath getenv p = Inr q"
  shows "Clean q = q \<and> lexically_clean q
    \<and> (CHR ''$'' \<notin> set q \<and> q \<noteq> ''~'' \<and> \<not> HasPrefix q ''~/'' \<longrightarrow> ExpandPath getenv q = Inr q)"
proof -
  from ExpandPath_is_Clean [OF assms] obtain x where q: "q = Clean x" ..
  then have c: "Clean q = q" by (simp add: Clean_idempotent)
  from q have l: "lexically_clean q" by (simp add: Clean_lexically_clean)
  from c l show ?thesis by (simp add: ExpandPath_fixed)
qed

theorem resolved_path_is_clean_witness:
  "ExpandPath env_home ''~/a/../b'' = Inr ''/home/u/b''
   \<and> Clean ''/home/u/b'' = ''/home/u/b'' \<and> lexically_clean ''/home/u/b''
   \<and> ExpandPath env_home ''/home/u/b'' = Inr ''/home/u/b''"
proof -
  have e: "ExpandPath env_home ''~/a/../b'' = Inr ''/home/u/b''"
    by code_simp
  have h: "CHR ''$'' \<notin> set ''/home/u/b'' \<and> ''/home/u/b'' \<noteq> ''~'' \<and> \<not> HasPrefix ''/home/u/b'' ''~/''"
    by (simp add: HasPrefix_def)
  from resolved_path_is_clean [OF e] h e show ?thesis by blast
qed

text \<open>
  C3 as stated fails: with \<open>HOME=/home/u\<close> the path \<open>./~\<close> resolves to \<open>~\<close>, which
  resolves to \<open>/home/u\<close>, so resolution is not idempotent; and \<open>../x\<close> resolves to
  itself, a resolved path with a \<open>..\<close> element.
\<close>

theorem resolution_not_idempotent:
  "ExpandPath env_home ''./~'' = Inr ''~'' \<and> ExpandPath env_home ''~'' = Inr ''/home/u''
   \<and> ''~'' \<noteq> ''/home/u'' \<and> ExpandPath env_home ''../x'' = Inr ''../x''"
  by (simp add: ExpandPath_def env_home_def HasPrefix_def UserHomeDir_def Clean_def is_rooted_def
      clean_step_def render_path_def)

section \<open>Stat: one time stamp, octal mode\<close>

lemma byte_digit_char: "d < 10 \<Longrightarrow> byte (digit_char d) = 48 + d"
  by (simp add: byte_def digit_char_def)

lemma octal_digit: "d < 8 \<Longrightarrow> digit_char d \<in> set ''01234567''"
proof -
  assume "d < 8"
  then have "d \<in> set [0, 1, 2, 3, 4, 5, 6, 7]" by auto
  moreover have "list_all (\<lambda>d. digit_char d \<in> set ''01234567'') [0, 1, 2, 3, 4, 5, 6, 7]"
    by code_simp
  ultimately show ?thesis
    unfolding list_all_iff by blast
qed

lemma octal_value_snoc: "octal_value (str @ [c]) = 8 * octal_value str + (byte c - 48)"
  by (simp add: octal_value_def)

lemma octal_value_format: "octal_value (format_octal n) = n"
proof (induction n rule: format_octal.induct)
  case (1 n)
  show ?case
  proof (cases "n < 8")
    case True
    then show ?thesis
      by (subst format_octal.simps) (simp add: octal_value_def byte_digit_char)
  next
    case False
    then have "octal_value (format_octal n) = 8 * (n div 8) + n mod 8"
      using 1 by (subst format_octal.simps) (simp add: octal_value_snoc byte_digit_char)
    then show ?thesis by simp
  qed
qed

lemma format_octal_digits: "list_all (\<lambda>c. c \<in> set ''01234567'') (format_octal n)"
proof (induction n rule: format_octal.induct)
  case (1 n)
  show ?case
  proof (cases "n < 8")
    case True
    then show ?thesis using octal_digit [of n] by (subst format_octal.simps) simp
  next
    case False
    have "n mod 8 < 8" by simp
    from octal_digit [OF this] False 1 show ?thesis
      by (subst format_octal.simps) simp
  qed
qed

lemma Stat_found:
  assumes "path \<noteq> []" and "ExpandPath (h_getenv H) path = Inr p" and "h_stat H s p = Inr info"
  shows "Stat H s path = mcpSuccess
     [VStr ''path'', VStr p, VStr ''name'', VStr (Base p), VStr ''type'', VStr (itemType info),
      VStr ''size'', VInt64 (fi_size info), VStr ''mode'', VStr (format_octal (unat (Perm info))),
      VStr ''modified'', VInt64 (fi_modTime info), VStr ''accessed'', VInt64 (fi_modTime info),
      VStr ''created'', VInt64 (fi_modTime info), VStr ''is_file'', VBool (\<not> IsDir info),
      VStr ''is_dir'', VBool (IsDir info),
      VStr ''is_symlink'', VBool (fi_mode info AND ModeSymlink \<noteq> 0)]"
  using assms by (simp add: Stat_def)

text \<open>
  C9: for a path that exists (the host's \<open>Stat\<close> succeeds on the resolved path), the
  result of \<open>Stat\<close> is a success whose \<open>modified\<close>, \<open>accessed\<close> and \<open>created\<close>
  fields are all the host's one modification time, and whose \<open>mode\<close> field is the
  permission bits (the low nine bits of the mode) written in octal: a string of octal
  digits that denotes that number.
\<close>

theorem stat_times_and_mode:
  assumes "path \<noteq> []" and "ExpandPath (h_getenv H) path = Inr p" and "h_stat H s p = Inr info"
  shows "Stat H s path ''success'' = Some (VBool True)
    \<and> Stat H s path ''modified'' = Some (VInt64 (fi_modTime info))
    \<and> Stat H s path ''accessed'' = Some (VInt64 (fi_modTime info))
    \<and> Stat H s path ''created'' = Some (VInt64 (fi_modTime info))
    \<and> Stat H s path ''mode'' = Some (VStr (format_octal (unat (fi_mode info AND 0x1FF))))
    \<and> octal_value (format_octal (unat (fi_mode info AND 0x1FF))) = unat (fi_mode info AND 0x1FF)
    \<and> list_all (\<lambda>c. c \<in> set ''01234567'') (format_octal (unat (fi_mode info AND 0x1FF)))"
proof -
  have fields: "Stat H s path ''success'' = Some (VBool True)
    \<and> Stat H s path ''modified'' = Some (VInt64 (fi_modTime info))
    \<and> Stat H s path ''accessed'' = Some (VInt64 (fi_modTime info))
    \<and> Stat H s path ''created'' = Some (VInt64 (fi_modTime info))
    \<and> Stat H s path ''mode'' = Some (VStr (format_octal (unat (fi_mode info AND 0x1FF))))"
    unfolding Stat_found [OF assms] by (simp add: mcpSuccess_def Perm_def ModePerm_def)
  with octal_value_format [of "unat (fi_mode info AND 0x1FF)"]
    format_octal_digits [of "unat (fi_mode info AND 0x1FF)"]
  show ?thesis by blast
qed

theorem stat_times_and_mode_witness:
  "Stat (memfs_host env_home) example_store ''/etc/hosts'' ''modified'' = Some (VInt64 0)
   \<and> Stat (memfs_host env_home) example_store ''/etc/hosts'' ''accessed'' = Some (VInt64 0)
   \<and> Stat (memfs_host env_home) example_store ''/etc/hosts'' ''created'' = Some (VInt64 0)
   \<and> Stat (memfs_host env_home) example_store ''/etc/hosts'' ''mode'' = Some (VStr ''644'')
   \<and> octal_value ''644'' = 420"
proof -
  let ?H = "memfs_host env_home"
  let ?info = "\<lparr>fi_size = 19, fi_mode = 420, fi_modTime = 0\<rparr>"
  have a: "''/etc/hosts'' \<noteq> []" by simp
  have b: "ExpandPath (h_getenv ?H) ''/etc/hosts'' = Inr ''/etc/hosts''" by code_simp
  have c: "h_stat ?H example_store ''/etc/hosts'' = Inr ?info" by code_simp
  have d: "format_octal (unat (fi_mode ?info AND 0x1FF)) = ''644''" by code_simp
  from stat_times_and_mode [OF a b c] show ?thesis
    unfolding d by simp
qed

section \<open>Exists\<close>

lemma Exists_missing:
  assumes "path \<noteq> []" and "ExpandPath (h_getenv H) path = Inr p"
    and "h_stat H s p = Inl e" and "IsNotExist e"
  shows "Exists H s path = mcpSuccess [VStr ''exists'', VBool False, VStr ''path'', VStr p]"
  using assms by (simp add: Exists_def)

lemma dom_exists_missing:
  "dom (mcpSuccess [VStr ''exists'', VBool False, VStr ''path'', VStr p])
     = {''success'', ''exists'', ''path''}"
  by (auto simp: mcpSuccess_def split: if_splits)

lemma Exists_fails_iff:
  "Exists H s path ''success'' = Some (VBool False) \<longleftrightarrow>
     (path = [] \<or> (\<exists>err. ExpandPath (h_getenv H) path = Inl err)
      \<or> (\<exists>p e. ExpandPath (h_getenv H) path = Inr p \<and> h_stat H s p = Inl e \<and> \<not> IsNotExist e))"
proof (cases "path = []")
  case True
  then show ?thesis by (simp add: Exists_def mcpError_success)
next
  case ne: False
  show ?thesis
  proof (cases "ExpandPath (h_getenv H) path")
    case (Inl err)
    with ne show ?thesis by (simp add: Exists_def mcpError_success)
  next
    case (Inr p)
    show ?thesis
    proof (cases "h_stat H s p")
      case (Inl e)
      with ne Inr show ?thesis
        by (simp add: Exists_def mcpError_success mcpSuccess_def)
    next
      case r: (Inr info)
      with ne Inr show ?thesis
        by (simp add: Exists_def mcpSuccess_def)
    qed
  qed
qed

text \<open>
  C5 (as amended): for a non-empty path that resolves and that the host reports as not
  found, \<open>Exists\<close> returns exactly \<open>success\<close> true, \<open>exists\<close> false and \<open>path\<close> the
  resolved path. \<open>Exists\<close> fails exactly when the path is empty, when resolving the path
  fails, or when the host's check raises an error other than not-found.
\<close>

theorem exists_missing_and_failures:
  "(path \<noteq> [] \<and> ExpandPath (h_getenv H) path = Inr p \<and> h_stat H s p = Inl e \<and> IsNotExist e \<longrightarrow>
       Exists H s path ''success'' = Some (VBool True)
     \<and> Exists H s path ''exists'' = Some (VBool False)
     \<and> Exists H s path ''path'' = Some (VStr p)
     \<and> dom (Exists H s path) = {''success'', ''exists'', ''path''})
   \<and> (Exists H s path ''success'' = Some (VBool False) \<longleftrightarrow>
        (path = [] \<or> (\<exists>err. ExpandPath (h_getenv H) path = Inl err)
         \<or> (\<exists>q err. ExpandPath (h_getenv H) path = Inr q \<and> h_stat H s q = Inl err
               \<and> \<not> IsNotExist err)))"
proof (intro conjI impI)
  assume a: "path \<noteq> [] \<and> ExpandPath (h_getenv H) path = Inr p \<and> h_stat H s p = Inl e \<and> IsNotExist e"
  then have eq: "Exists H s path = mcpSuccess [VStr ''exists'', VBool False, VStr ''path'', VStr p]"
    by (simp add: Exists_missing)
  show "Exists H s path ''success'' = Some (VBool True)"
    unfolding eq by (simp add: mcpSuccess_def)
  show "Exists H s path ''exists'' = Some (VBool False)"
    unfolding eq by (simp add: mcpSuccess_def)
  show "Exists H s path ''path'' = Some (VStr p)"
    unfolding eq by (simp add: mcpSuccess_def)
  show "dom (Exists H s path) = {''success'', ''exists'', ''path''}"
    unfolding eq by (rule dom_exists_missing)
next
  show "Exists H s path ''success'' = Some (VBool False) \<longleftrightarrow>
        (path = [] \<or> (\<exists>err. ExpandPath (h_getenv H) path = Inl err)
         \<or> (\<exists>q err. ExpandPath (h_getenv H) path = Inr q \<and> h_stat H s q = Inl err
               \<and> \<not> IsNotExist err))"
    by (rule Exists_fails_iff)
qed

theorem exists_missing_and_failures_witness:
  "Exists (memfs_host env_home) example_store ''/nope'' ''success'' = Some (VBool True)
   \<and> Exists (memfs_host env_home) example_store ''/nope'' ''exists'' = Some (VBool False)
   \<and> Exists (memfs_host env_home) example_store ''/nope'' ''path'' = Some (VStr ''/nope'')
   \<and> dom (Exists (memfs_host env_home) example_store ''/nope'') = {''success'', ''exists'', ''path''}
   \<and> Exists (memfs_host env_home) example_store [] ''success'' = Some (VBool False)"
proof -
  let ?H = "memfs_host env_home"
  have a: "''/nope'' \<noteq> []" by simp
  have b: "ExpandPath (h_getenv ?H) ''/nope'' = Inr ''/nope''" by code_simp
  have c: "h_stat ?H example_store ''/nope'' = Inl (ENOENT ''stat'' ''/nope'')" by code_simp
  have d: "IsNotExist (ENOENT ''stat'' ''/nope'')" by code_simp
  from exists_missing_and_failures [of "''/nope''" ?H "''/nope''" example_store "ENOENT ''stat'' ''/nope''"]
    a b c d
  have 1: "Exists ?H example_store ''/nope'' ''success'' = Some (VBool True)
     \<and> Exists ?H example_store ''/nope'' ''exists'' = Some (VBool False)
     \<and> Exists ?H example_store ''/nope'' ''path'' = Some (VStr ''/nope'')
     \<and> dom (Exists ?H example_store ''/nope'') = {''success'', ''exists'', ''path''}"
    by blast
  from exists_missing_and_failures [of "[]" ?H "[]" example_store "ENOENT ''stat'' ''/nope''"]
  have 2: "Exists ?H example_store [] ''success'' = Some (VBool False)"
    by blast
  from 1 2 show ?thesis by blast
qed

text \<open>
  C5 as stated fails: without a home directory the path \<open>~\<close> is not empty and is never
  checked on the host, and \<open>Exists\<close> fails.
\<close>

theorem exists_fails_without_home:
  "''~'' \<noteq> [] \<and> ExpandPath env_empty ''~'' = Inl ''failed to get home directory: $HOME is not defined''
   \<and> Exists (memfs_host env_empty) example_store ''~''
       = mcpError ''failed to get home directory: $HOME is not defined''
   \<and> Exists (memfs_host env_empty) example_store ''~'' ''success'' = Some (VBool False)"
  by (simp add: Exists_def ExpandPath_def env_empty_def memfs_host_def HasPrefix_def UserHomeDir_def
      mcpError_def)

section \<open>Read\<close>

lemma Read_fails_iff:
  "Read H s path ''success'' = Some (VBool False) \<longleftrightarrow>
     (path = [] \<or> (\<exists>err. ExpandPath (h_getenv H) path = Inl err)
      \<or> (\<exists>q. ExpandPath (h_getenv H) path = Inr q \<and>
            ((\<exists>err. h_stat H s q = Inl err)
             \<or> (\<exists>i. h_stat H s q = Inr i \<and>
                  (IsDir i \<or> (\<exists>err. h_readFile H s q = Inl err)
                   \<or> (\<exists>d. h_readFile H s q = Inr d \<and> \<not> Valid d))))))"
proof (cases "path = []")
  case True
  then show ?thesis by (simp add: Read_def mcpError_success)
next
  case ne: False
  show ?thesis
  proof (cases "ExpandPath (h_getenv H) path")
    case (Inl err)
    with ne show ?thesis by (simp add: Read_def mcpError_success)
  next
    case (Inr p)
    show ?thesis
    proof (cases "h_stat H s p")
      case (Inl e)
      with ne Inr show ?thesis by (simp add: Read_def mcpError_success)
    next
      case st: (Inr info)
      show ?thesis
      proof (cases "IsDir info")
        case True
        with ne Inr st show ?thesis by (simp add: Read_def mcpError_success)
      next
        case nd: False
        show ?thesis
        proof (cases "h_readFile H s p")
          case (Inl e)
          with ne Inr st nd show ?thesis by (simp add: Read_def mcpError_success)
        next
          case rd: (Inr d)
          with ne Inr st nd show ?thesis
            by (simp add: Read_def mcpError_success mcpSuccess_def)
        qed
      qed
    qed
  qed
qed

lemma Read_succeeds:
  assumes "path \<noteq> []" and "ExpandPath (h_getenv H) path = Inr p"
    and "h_stat H s p = Inr info" and "\<not> IsDir info"
    and "h_readFile H s p = Inr d" and "Valid d"
  shows "Read H s path = mcpSuccess [VStr ''content'', VStr d]"
  using assms by (simp add: Read_def)

lemma content_of_success: "mcpSuccess [VStr ''content'', VStr d] ''content'' = Some (VStr d)"
  by (simp add: mcpSuccess_def)

text \<open>
  C7 (as amended): \<open>Read\<close> fails exactly when the path is empty, resolving the path
  fails, the host's \<open>Stat\<close> reports an error (not found or any other), the target is a
  directory, reading the file reports an error (permission denied or any other), or the
  content is not valid UTF-8. Otherwise it succeeds and the field \<open>content\<close> is the
  whole content of the file. For the empty path the result is exactly
  \<open>{success: false, error: "path is required"}\<close>.
\<close>

theorem read_outcomes:
  "Read H s [] = mcpError ''path is required''
   \<and> (Read H s path ''success'' = Some (VBool False) \<longleftrightarrow>
        (path = [] \<or> (\<exists>err. ExpandPath (h_getenv H) path = Inl err)
         \<or> (\<exists>q. ExpandPath (h_getenv H) path = Inr q \<and>
               ((\<exists>err. h_stat H s q = Inl err)
                \<or> (\<exists>i. h_stat H s q = Inr i \<and>
                     (IsDir i \<or> (\<exists>err. h_readFile H s q = Inl err)
                      \<or> (\<exists>d. h_readFile H s q = Inr d \<and> \<not> Valid d)))))))
   \<and> (path \<noteq> [] \<and> ExpandPath (h_getenv H) path = Inr p \<and> h_stat H s p = Inr info
        \<and> \<not> IsDir info \<and> h_readFile H s p = Inr content \<and> Valid content \<longrightarrow>
          Read H s path = mcpSuccess [VStr ''content'', VStr content]
        \<and> Read H s path ''content'' = Some (VStr content))"
proof (intro conjI impI)
  show "Read H s [] = mcpError ''path is required''"
    by (simp add: Read_def)
next
  show "Read H s path ''success'' = Some (VBool False) \<longleftrightarrow>
        (path = [] \<or> (\<exists>err. ExpandPath (h_getenv H) path = Inl err)
         \<or> (\<exists>q. ExpandPath (h_getenv H) path = Inr q \<and>
               ((\<exists>err. h_stat H s q = Inl err)
                \<or> (\<exists>i. h_stat H s q = Inr i \<and>
                     (IsDir i \<or> (\<exists>err. h_readFile H s q = Inl err)
                      \<or> (\<exists>d. h_readFile H s q = Inr d \<and> \<not> Valid d))))))"
    by (rule Read_fails_iff)
next
  assume a: "path \<noteq> [] \<and> ExpandPath (h_getenv H) path = Inr p \<and> h_stat H s p = Inr info
        \<and> \<not> IsDir info \<and> h_readFile H s p = Inr content \<and> Valid content"
  then show eq: "Read H s path = mcpSuccess [VStr ''content'', VStr content]"
    by (simp add: Read_succeeds)
  show "Read H s path ''content'' = Some (VStr content)"
    unfolding eq by (rule content_of_success)
qed

theorem read_outcomes_witness:
  "Read (memfs_host env_home) example_store [] = mcpError ''path is required''
   \<and> Read (memfs_host env_home) example_store ''/etc/hosts''
       = mcpSuccess [VStr ''content'', VStr ''127.0.0.1 localhost'']
   \<and> Read (memfs_host env_home) example_store ''/etc/hosts'' ''content''
       = Some (VStr ''127.0.0.1 localhost'')"
proof -
  let ?H = "memfs_host env_home"
  let ?info = "\<lparr>fi_size = 19, fi_mode = 420, fi_modTime = 0\<rparr>"
  have a: "''/etc/hosts'' \<noteq> []" by simp
  have b: "ExpandPath (h_getenv ?H) ''/etc/hosts'' = Inr ''/etc/hosts''" by code_simp
  have c: "h_stat ?H example_store ''/etc/hosts'' = Inr ?info" by code_simp
  have d: "\<not> IsDir ?info" by code_simp
  have e: "h_readFile ?H example_store ''/etc/hosts'' = Inr ''127.0.0.1 localhost''" by code_simp
  have f: "Valid ''127.0.0.1 localhost''" by code_simp
  from read_outcomes [of ?H example_store "''/etc/hosts''" "''/etc/hosts''" ?info "''127.0.0.1 localhost''"]
    a b c d e f
  show ?thesis by blast
qed

text \<open>
  C7 as stated fails: without a home directory \<open>Read\<close> fails on the non-empty path
  \<open>~/notes.txt\<close> before the host is asked about any file, for none of the listed
  reasons.
\<close>

theorem read_fails_without_home:
  "''~/notes.txt'' \<noteq> []
   \<and> ExpandPath env_empty ''~/notes.txt'' = Inl ''failed to get home directory: $HOME is not defined''
   \<and> Read (memfs_host env_empty) example_store ''~/notes.txt''
       = mcpError ''failed to get home directory: $HOME is not defined''
   \<and> Read (memfs_host env_empty) example_store ''~/notes.txt'' ''success'' = Some (VBool False)"
  by (simp add: Read_def ExpandPath_def env_empty_def memfs_host_def HasPrefix_def UserHomeDir_def
      mcpError_def)

section \<open>The exit status\<close>

lemma exit_exists: "build_request H CmdExists f = Inr (ReqExists (fl_path f))"
  by (simp add: build_request_def)

lemma RunE_exists_exit: "exit_status (RunE H s CmdExists f) = 0"
  by (simp add: RunE_def build_request_def)

lemma RunE_other_exit:
  assumes "cmd \<noteq> CmdExists" and "build_request H cmd f = Inr req"
  shows "exit_status (RunE H s cmd f)
     = (if fst (perform H s req) ''success'' = Some (VBool True) then 0 else 1)"
proof -
  obtain res s1 where pf: "perform H s req = (res, s1)" by (cases "perform H s req")
  from well_formed_success [OF perform_well_formed, of H s req] pf
  obtain b where b: "res ''success'' = Some (VBool b)"
    by auto
  with assms pf show ?thesis
    by (simp add: RunE_def getBool_def)
qed

text \<open>
  C4: on a failed check the \<open>exists\<close> command prints a result whose \<open>success\<close> is
  false and still exits with status 0, where the \<open>stat\<close> command on the same flags
  exits with status 1.
\<close>

theorem exists_error_exits_zero:
  "printed (RunE (memfs_host env_home) example_store CmdExists default_flags)
     = [mcpError ''path is required'']
   \<and> exit_status (RunE (memfs_host env_home) example_store CmdExists default_flags) = 0
   \<and> printed (RunE (memfs_host env_home) example_store CmdStat default_flags)
     = [mcpError ''path is required'']
   \<and> exit_status (RunE (memfs_host env_home) example_store CmdStat default_flags) = 1"
  by (simp add: RunE_def build_request_def default_flags_def Exists_def Stat_def getBool_def
      mcpError_def)

section \<open>Facts about the in-memory host\<close>

lemma map_of_filter_key:
  "map_of (filter (\<lambda>(k, _). P k) s) a = (if P a then map_of s a else None)"
  by (induction s) auto

lemma map_of_m_put: "map_of (m_put s q n) k = (if k = q then Some n else map_of s k)"
  by (simp add: m_put_def map_of_filter_key)

lemma map_of_m_delete: "map_of (m_delete s q) k = (if k = q then None else map_of s k)"
  by (simp add: m_delete_def map_of_filter_key)

lemma map_of_m_delete_under:
  "map_of (m_delete_under s q) k = (if under q k then None else map_of s k)"
  by (simp add: m_delete_under_def map_of_filter_key)

lemma proper_prefix_shorter: "a \<in> set (butlast (path_prefixes q)) \<Longrightarrow> length a < length q"
  by (auto simp: path_prefixes_def)

lemma take_eq_length: "take (length x) k = x \<Longrightarrow> length x \<le> length k"
proof -
  assume "take (length x) k = x"
  then have "length (take (length x) k) = length x" by simp
  then show ?thesis by simp
qed

lemma under_longer: "under q k \<Longrightarrow> length q \<le> length k"
proof -
  assume "under q k"
  then have "take (length (if q = ''/'' then q else q @ ''/'')) k = (if q = ''/'' then q else q @ ''/'')"
    by (simp add: under_def HasPrefix_def)
  then have "length (if q = ''/'' then q else q @ ''/'') \<le> length k"
    by (rule take_eq_length)
  then show ?thesis by (simp split: if_splits)
qed

lemma blocked_cong:
  assumes "\<And>a. length a < length q \<Longrightarrow> map_of s' a = map_of s a"
  shows "blocked s' q = blocked s q"
proof -
  have "is_file_at s' a = is_file_at s a" if "a \<in> set (butlast (path_prefixes q))" for a
    using assms [OF proper_prefix_shorter [OF that]] by (simp add: is_file_at_def)
  then show ?thesis
    by (simp add: blocked_def list_ex_iff)
qed

lemma blocked_m_put: "blocked (m_put s q n) q = blocked s q"
  by (rule blocked_cong) (auto simp: map_of_m_put)

lemma file_info_not_dir: "\<not> IsDir (node_info (MFile perm d))"
  by (simp add: IsDir_def node_info_def ModePerm_def ModeDir_def and.assoc)

lemma dir_info_is_dir: "IsDir (node_info (MDir perm))"
  by (simp add: IsDir_def node_info_def ModeDir_def bit.conj_disj_distrib2)

lemma m_writeFile_written:
  assumes "m_writeFile s q d perm = (None, s')"
  shows "\<exists>perm'. s' = m_put s q (MFile perm' d) \<and> \<not> blocked s q"
  using assms
  by (auto simp: m_writeFile_def split: if_splits option.splits node.splits)

lemma memfs_written_file_reads_back:
  assumes "m_writeFile s q d perm = (None, s')"
  shows "(\<exists>info. m_stat s' q = Inr info \<and> \<not> IsDir info) \<and> m_readFile s' q = Inr d"
proof -
  from m_writeFile_written [OF assms] obtain perm' where
    s': "s' = m_put s q (MFile perm' d)" and nb: "\<not> blocked s q" by blast
  have st: "m_stat s' q = Inr (node_info (MFile perm' d))"
    by (simp add: m_stat_def s' blocked_m_put nb map_of_m_put)
  have rd: "m_readFile s' q = Inr d"
    by (simp add: m_readFile_def s' blocked_m_put nb map_of_m_put)
  from st rd file_info_not_dir [of perm' d] show ?thesis by simp
qed

lemma memfs_failed_remove_changes_nothing:
  assumes "m_remove s q = (Some e, s')"
  shows "s' = s"
  using assms by (auto simp: m_remove_def split: if_splits option.splits node.splits)

lemma memfs_removal_is_effective:
  assumes "m_removeAll s q = (None, s')"
  shows "m_stat s' q = Inl (ENOENT ''stat'' q)"
proof -
  from assms have nb: "\<not> blocked s q" and s': "s' = m_delete (m_delete_under s q) q"
    by (auto simp: m_removeAll_def split: if_splits)
  have "blocked s' q = blocked s q"
  proof (rule blocked_cong)
    fix a :: string
    assume l: "length a < length q"
    then have "a \<noteq> q" by auto
    moreover from l have "\<not> under q a" using under_longer [of q a] by auto
    ultimately show "map_of s' a = map_of s a"
      by (simp add: s' map_of_m_delete map_of_m_delete_under)
  qed
  with nb show ?thesis
    by (simp add: m_stat_def s' map_of_m_delete)
qed

section \<open>Write, then Read\<close>

lemma Write_succeeded:
  assumes "Write H s path content createDirs = (res, s')" and "res ''success'' = Some (VBool True)"
  shows "path \<noteq> [] \<and> (\<exists>p s1. ExpandPath (h_getenv H) path = Inr p
           \<and> h_writeFile H s1 p content perm_0644 = (None, s'))"
proof (cases "path = [] \<or> content = []")
  case True
  then have "Write H s path content createDirs = (mcpError ''path is required'', s)
      \<or> Write H s path content createDirs = (mcpError ''content is required'', s)"
    by (cases "path = []") (simp_all add: Write_def)
  with assms show ?thesis by (auto simp: mcpError_def)
next
  case ne: False
  show ?thesis
  proof (cases "ExpandPath (h_getenv H) path")
    case (Inl err)
    with ne assms show ?thesis by (auto simp: Write_def mcpError_def)
  next
    case (Inr p)
    obtain e1 s1 where mk: "(if createDirs then h_mkdirAll H s (Dir p) perm_0755 else (None, s)) = (e1, s1)"
      by (cases "if createDirs then h_mkdirAll H s (Dir p) perm_0755 else (None, s)")
    obtain e2 s2 where wr: "h_writeFile H s1 p content perm_0644 = (e2, s2)"
      by (cases "h_writeFile H s1 p content perm_0644")
    from ne Inr mk have W: "Write H s path content createDirs =
        (case e1 of Some err \<Rightarrow> (mcpError (Error err), s1)
         | None \<Rightarrow> (case h_writeFile H s1 p content perm_0644 of
              (Some err, s2) \<Rightarrow> (if IsPermission err then mcpError (''permission denied: '' @ path)
                     else mcpError (Error err), s2)
            | (None, s2) \<Rightarrow> (mcpSuccess [VStr ''path'', VStr p], s2)))"
      by (simp add: Write_def split: option.splits)
    from assms W wr have "e1 = None \<and> e2 = None \<and> s2 = s'"
      by (auto simp: mcpError_def split: option.splits if_splits)
    with wr ne Inr show ?thesis by auto
  qed
qed

text \<open>
  C2 (as amended): if \<open>Write\<close> of a path with content \<open>c\<close> and \<open>createDirs\<close> true
  succeeds (so the path and \<open>c\<close> are not empty), then the host has written \<open>c\<close> to
  the resolved path without error; and if \<open>c\<close> is valid UTF-8 and the host then
  reports that one path as a file that is not a directory and that reads as \<open>c\<close>, then
  \<open>Read\<close> of the same path succeeds and its \<open>content\<close> is \<open>c\<close>.
\<close>

theorem write_then_read:
  assumes "Write H s path content True = (res, s')"
    and "res ''success'' = Some (VBool True)"
    and "Valid content"
    and "ExpandPath (h_getenv H) path = Inr p"
    and "h_stat H s' p = Inr info" and "\<not> IsDir info"
    and "h_readFile H s' p = Inr content"
  shows "(\<exists>s1. h_writeFile H s1 p content perm_0644 = (None, s'))
    \<and> Read H s' path = mcpSuccess [VStr ''content'', VStr content]
    \<and> Read H s' path ''success'' = Some (VBool True)
    \<and> Read H s' path ''content'' = Some (VStr content)"
proof -
  from Write_succeeded [OF assms(1) assms(2)] assms(4) obtain s1 where
    ne: "path \<noteq> []" and wr: "h_writeFile H s1 p content perm_0644 = (None, s')" by auto
  have eq: "Read H s' path = mcpSuccess [VStr ''content'', VStr content]"
    by (rule Read_succeeds [OF ne assms(4) assms(5) assms(6) assms(7) assms(3)])
  have f: "mcpSuccess [VStr ''content'', VStr content] ''success'' = Some (VBool True)
      \<and> mcpSuccess [VStr ''content'', VStr content] ''content'' = Some (VStr content)"
    by (simp add: mcpSuccess_def)
  from wr eq f show ?thesis by auto
qed

theorem write_then_read_witness:
  "fst (Write (memfs_host env_home) example_store ''/x/y.txt'' ''hi'' True) ''success''
     = Some (VBool True)
   \<and> Read (memfs_host env_home)
        (snd (Write (memfs_host env_home) example_store ''/x/y.txt'' ''hi'' True)) ''/x/y.txt''
        ''content'' = Some (VStr ''hi'')"
proof -
  let ?H = "memfs_host env_home"
  let ?w = "Write ?H example_store ''/x/y.txt'' ''hi'' True"
  let ?info = "\<lparr>fi_size = 2, fi_mode = 420, fi_modTime = 0\<rparr>"
  have a: "?w = (fst ?w, snd ?w)" by simp
  have b: "fst ?w ''success'' = Some (VBool True)" by code_simp
  have c: "Valid ''hi''" by code_simp
  have d: "ExpandPath (h_getenv ?H) ''/x/y.txt'' = Inr ''/x/y.txt''" by code_simp
  have e: "h_stat ?H (snd ?w) ''/x/y.txt'' = Inr ?info" by code_simp
  have f: "\<not> IsDir ?info" by code_simp
  have g: "h_readFile ?H (snd ?w) ''/x/y.txt'' = Inr ''hi''" by code_simp
  from write_then_read [OF a b c d e f g] b show ?thesis by blast
qed

text \<open>
  C2 as stated fails. \<open>Write\<close> stores any bytes and \<open>Read\<close> refuses bytes that are not
  valid UTF-8: the one-byte content \<open>0xFF\<close> is written and then not read back. And
  \<open>Write\<close> itself can fail, as on a read-only file system, after which \<open>Read\<close> finds
  no file.
\<close>

theorem write_then_read_counterexample:
  "[CHR 0xFF] \<noteq> [] \<and> ''/x/y.txt'' \<noteq> []
   \<and> fst (Write (memfs_host env_home) example_store ''/x/y.txt'' [CHR 0xFF] True)
       = mcpSuccess [VStr ''path'', VStr ''/x/y.txt'']
   \<and> Read (memfs_host env_home)
        (snd (Write (memfs_host env_home) example_store ''/x/y.txt'' [CHR 0xFF] True)) ''/x/y.txt''
       = mcpError ''file is not valid UTF-8: /x/y.txt''
   \<and> fst (Write (readonly_host env_home) example_store ''/x/y.txt'' ''hi'' True)
       = mcpError ''mkdir /x: read-only file system''
   \<and> Read (readonly_host env_home)
        (snd (Write (readonly_host env_home) example_store ''/x/y.txt'' ''hi'' True)) ''/x/y.txt''
       = mcpError ''file not found: /x/y.txt''"
proof -
  let ?H = "memfs_host env_home"
  let ?R = "readonly_host env_home"
  have p: "ExpandPath env_home ''/x/y.txt'' = Inr ''/x/y.txt''" by code_simp
  have d: "Dir ''/x/y.txt'' = ''/x''" by code_simp
  have m: "m_mkdirAll example_store ''/x'' perm_0755 = (None, (''/x'', MDir 493) # example_store)"
    by code_simp
  have w: "m_writeFile ((''/x'', MDir 493) # example_store) ''/x/y.txt'' [CHR 0xFF] perm_0644
      = (None, (''/x/y.txt'', MFile 420 [CHR 0xFF]) # (''/x'', MDir 493) # example_store)"
    by code_simp
  have W: "Write ?H example_store ''/x/y.txt'' [CHR 0xFF] True
      = (mcpSuccess [VStr ''path'', VStr ''/x/y.txt''],
         (''/x/y.txt'', MFile 420 [CHR 0xFF]) # (''/x'', MDir 493) # example_store)"
    by (simp add: Write_def memfs_host_def p d m w)
  have st: "m_stat ((''/x/y.txt'', MFile 420 [CHR 0xFF]) # (''/x'', MDir 493) # example_store) ''/x/y.txt''
      = Inr \<lparr>fi_size = 1, fi_mode = 420, fi_modTime = 0\<rparr>"
    by code_simp
  have nd: "\<not> IsDir \<lparr>fi_size = 1, fi_mode = 420, fi_modTime = 0\<rparr>" by code_simp
  have rd: "m_readFile ((''/x/y.txt'', MFile 420 [CHR 0xFF]) # (''/x'', MDir 493) # example_store) ''/x/y.txt''
      = Inr [CHR 0xFF]"
    by code_simp
  have nv: "\<not> Valid [CHR 0xFF]" by code_simp
  have R: "Read ?H ((''/x/y.txt'', MFile 420 [CHR 0xFF]) # (''/x'', MDir 493) # example_store) ''/x/y.txt''
      = mcpError ''file is not valid UTF-8: /x/y.txt''"
    by (simp add: Read_def memfs_host_def p st nd rd nv del: Valid.simps)
  have W2: "Write ?R example_store ''/x/y.txt'' ''hi'' True
      = (mcpError ''mkdir /x: read-only file system'', example_store)"
    by (simp add: Write_def readonly_host_def memfs_host_def p d EROFS_def host_error_def)
  have st2: "m_stat example_store ''/x/y.txt'' = Inl (ENOENT ''stat'' ''/x/y.txt'')" by code_simp
  have R2: "Read ?R example_store ''/x/y.txt'' = mcpError ''file not found: /x/y.txt''"
    by (simp add: Read_def readonly_host_def memfs_host_def p st2 ENOENT_def host_error_def
        IsNotExist_def)
  from W R W2 R2 show ?thesis by simp
qed

text \<open>
  The host's report on the written path is needed: writing to the sink succeeds, and
  reading it back succeeds with empty content.
\<close>

lemma write_to_sink_reads_nothing:
  "fst (Write (sink_host env_home) sink_store ''/dev/null'' ''hi'' True)
     = mcpSuccess [VStr ''path'', VStr ''/dev/null'']
   \<and> Read (sink_host env_home)
        (snd (Write (sink_host env_home) sink_store ''/dev/null'' ''hi'' True)) ''/dev/null''
     = mcpSuccess [VStr ''content'', VStr []]"
proof -
  let ?S = "sink_host env_home"
  have p: "ExpandPath env_home ''/dev/null'' = Inr ''/dev/null''" by code_simp
  have d: "Dir ''/dev/null'' = ''/dev''" by code_simp
  have m: "m_mkdirAll sink_store ''/dev'' perm_0755 = (None, sink_store)" by code_simp
  have W: "Write ?S sink_store ''/dev/null'' ''hi'' True
      = (mcpSuccess [VStr ''path'', VStr ''/dev/null''], sink_store)"
    by (simp add: Write_def sink_host_def memfs_host_def p d m)
  have st: "m_stat sink_store ''/dev/null'' = Inr \<lparr>fi_size = 0, fi_mode = 438, fi_modTime = 0\<rparr>"
    by code_simp
  have nd: "\<not> IsDir \<lparr>fi_size = 0, fi_mode = 438, fi_modTime = 0\<rparr>" by code_simp
  have rd: "m_readFile sink_store ''/dev/null'' = Inr []" by code_simp
  have R: "Read ?S sink_store ''/dev/null'' = mcpSuccess [VStr ''content'', VStr []]"
    by (simp add: Read_def sink_host_def memfs_host_def p st nd rd)
  from W R show ?thesis by simp
qed

section \<open>Mkdir\<close>

lemma map_of_const_keys:
  "map_of (map (\<lambda>a. (a, v)) xs) a = (if a \<in> set xs then Some v else None)"
  by (induction xs) auto

lemma m_mkdirAll_made:
  assumes "m_mkdirAll s q perm = (None, s')" and "a \<in> set (path_prefixes q)"
  shows "is_dir_at s' a"
proof -
  from assms(1) have nf: "\<not> list_ex (is_file_at s) (path_prefixes q)"
    and s': "s' = map (\<lambda>a. (a, MDir perm)) (filter (\<lambda>a. map_of s a = None) (remdups (path_prefixes q))) @ s"
    by (auto simp: m_mkdirAll_def split: if_splits)
  from nf assms(2) have na: "\<not> is_file_at s a" by (auto simp: list_ex_iff)
  show ?thesis
  proof (cases "map_of s a")
    case None
    with assms(2) show ?thesis
      by (simp add: is_dir_at_def s' map_add_def map_of_const_keys)
  next
    case (Some n)
    with na obtain p where "n = MDir p" by (cases n) (auto simp: is_file_at_def)
    with Some show ?thesis
      by (simp add: is_dir_at_def s' map_add_def map_of_const_keys)
  qed
qed

lemma q_in_prefixes: "q \<in> set (path_prefixes q)"
  by (simp add: path_prefixes_def)

lemma butlast_prefixes_subset: "a \<in> set (butlast (path_prefixes q)) \<Longrightarrow> a \<in> set (path_prefixes q)"
  by (rule in_set_butlastD)

lemma dir_not_file: "is_dir_at s a \<Longrightarrow> \<not> is_file_at s a"
  by (auto simp: is_dir_at_def is_file_at_def split: option.splits node.splits)

lemma memfs_created_directory_exists: "created_directory_exists (memfs_host getenv)"
  unfolding created_directory_exists_def
proof (intro allI impI)
  fix s q perm s'
  assume "h_mkdirAll (memfs_host getenv) s q perm = (None, s')"
  then have mk: "m_mkdirAll s q perm = (None, s')" by (simp add: memfs_host_def)
  have nb: "\<not> blocked s' q"
    using m_mkdirAll_made [OF mk butlast_prefixes_subset] dir_not_file
    by (auto simp: blocked_def list_ex_iff)
  from m_mkdirAll_made [OF mk q_in_prefixes] obtain p where "map_of s' q = Some (MDir p)"
    by (auto simp: is_dir_at_def split: option.splits node.splits)
  with nb have "m_stat s' q = Inr (node_info (MDir p))" by (simp add: m_stat_def)
  with dir_info_is_dir [of p]
  show "\<exists>info. h_stat (memfs_host getenv) s' q = Inr info \<and> IsDir info"
    by (simp add: memfs_host_def)
qed

lemma Mkdir_existing_dir:
  assumes "path \<noteq> []" and "ExpandPath (h_getenv H) path = Inr p"
    and "h_stat H s p = Inr info" and "IsDir info"
  shows "Mkdir H s path parents =
    (mcpSuccess [VStr ''path'', VStr p, VStr ''message'', VStr ''directory already exists''], s)"
  using assms by (simp add: Mkdir_def)

lemma Mkdir_existing_other:
  assumes "path \<noteq> []" and "ExpandPath (h_getenv H) path = Inr p"
    and "h_stat H s p = Inr info" and "\<not> IsDir info"
  shows "Mkdir H s path parents = (mcpError (''path exists but is not a directory: '' @ path), s)"
  using assms by (simp add: Mkdir_def)

lemma Mkdir_succeeded:
  assumes "Mkdir H s path True = (res, s1)" and "res ''success'' = Some (VBool True)"
  shows "path \<noteq> [] \<and> (\<exists>p. ExpandPath (h_getenv H) path = Inr p \<and>
           ((\<exists>info. h_stat H s p = Inr info \<and> IsDir info \<and> s1 = s)
            \<or> (\<exists>perm. h_mkdirAll H s p perm = (None, s1))))"
proof (cases "path = []")
  case True
  with assms show ?thesis by (auto simp: Mkdir_def mcpError_def)
next
  case ne: False
  show ?thesis
  proof (cases "ExpandPath (h_getenv H) path")
    case (Inl err)
    with ne assms show ?thesis by (auto simp: Mkdir_def mcpError_def)
  next
    case (Inr p)
    show ?thesis
    proof (cases "h_stat H s p")
      case st: (Inr info)
      with ne Inr assms show ?thesis
        by (cases "IsDir info") (auto simp: Mkdir_def mcpError_def)
    next
      case st: (Inl e)
      obtain e1 s2 where mk: "h_mkdirAll H s p perm_0755 = (e1, s2)"
        by (cases "h_mkdirAll H s p perm_0755")
      with ne Inr st assms have "e1 = None \<and> s2 = s1"
        by (cases e1) (auto simp: Mkdir_def mcpError_def split: if_splits)
      with mk ne Inr show ?thesis by auto
    qed
  qed
qed

lemma message_fields:
  "mcpSuccess [VStr ''path'', VStr p, VStr ''message'', VStr m] ''success'' = Some (VBool True)
   \<and> mcpSuccess [VStr ''path'', VStr p, VStr ''message'', VStr m] ''message'' = Some (VStr m)"
  by (simp add: mcpSuccess_def)

text \<open>
  C6 (as amended): if the resolved path exists and is a directory, \<open>Mkdir\<close> succeeds,
  changes nothing, and its result has the \<open>message\<close> field
  \<open>directory already exists\<close>; if the path exists and is not a directory, \<open>Mkdir\<close>
  fails. On a host where a directory that \<open>MkdirAll\<close> made without error is then a
  directory, whenever a first \<open>Mkdir\<close> with \<open>parents\<close> true succeeds, a second one on
  the same path succeeds too, changes nothing, and returns that message.
\<close>

theorem mkdir_existing_and_twice:
  "(path \<noteq> [] \<and> ExpandPath (h_getenv H) path = Inr p \<and> h_stat H s p = Inr info \<and> IsDir info \<longrightarrow>
      Mkdir H s path parents =
        (mcpSuccess [VStr ''path'', VStr p, VStr ''message'', VStr ''directory already exists''], s))
   \<and> (path \<noteq> [] \<and> ExpandPath (h_getenv H) path = Inr p \<and> h_stat H s p = Inr info \<and> \<not> IsDir info \<longrightarrow>
      Mkdir H s path parents = (mcpError (''path exists but is not a directory: '' @ path), s))
   \<and> (created_directory_exists H \<and> Mkdir H s path True = (res, s1)
       \<and> res ''success'' = Some (VBool True) \<longrightarrow>
      snd (Mkdir H s1 path True) = s1
      \<and> fst (Mkdir H s1 path True) ''success'' = Some (VBool True)
      \<and> fst (Mkdir H s1 path True) ''message'' = Some (VStr ''directory already exists''))"
proof (intro conjI impI)
  assume "path \<noteq> [] \<and> ExpandPath (h_getenv H) path = Inr p \<and> h_stat H s p = Inr info \<and> IsDir info"
  then show "Mkdir H s path parents =
        (mcpSuccess [VStr ''path'', VStr p, VStr ''message'', VStr ''directory already exists''], s)"
    by (simp add: Mkdir_existing_dir)
next
  assume "path \<noteq> [] \<and> ExpandPath (h_getenv H) path = Inr p \<and> h_stat H s p = Inr info \<and> \<not> IsDir info"
  then show "Mkdir H s path parents = (mcpError (''path exists but is not a directory: '' @ path), s)"
    by (simp add: Mkdir_existing_other)
next
  assume a: "created_directory_exists H \<and> Mkdir H s path True = (res, s1)
       \<and> res ''success'' = Some (VBool True)"
  then have law: "created_directory_exists H" and m: "Mkdir H s path True = (res, s1)"
    and ok: "res ''success'' = Some (VBool True)" by simp_all
  from Mkdir_succeeded [OF m ok] obtain q where ne: "path \<noteq> []"
    and ep: "ExpandPath (h_getenv H) path = Inr q"
    and how: "(\<exists>info. h_stat H s q = Inr info \<and> IsDir info \<and> s1 = s)
            \<or> (\<exists>perm. h_mkdirAll H s q perm = (None, s1))" by blast
  from how law obtain info' where st: "h_stat H s1 q = Inr info'" and d: "IsDir info'"
    unfolding created_directory_exists_def by blast
  have eq: "Mkdir H s1 path True =
      (mcpSuccess [VStr ''path'', VStr q, VStr ''message'', VStr ''directory already exists''], s1)"
    by (rule Mkdir_existing_dir [OF ne ep st d])
  show "snd (Mkdir H s1 path True) = s1" by (simp add: eq)
  show "fst (Mkdir H s1 path True) ''success'' = Some (VBool True)"
    by (simp add: eq message_fields)
  show "fst (Mkdir H s1 path True) ''message'' = Some (VStr ''directory already exists'')"
    by (simp add: eq message_fields)
qed

theorem mkdir_existing_and_twice_witness:
  "fst (Mkdir (memfs_host env_home) example_store ''/p/q'' True) ''success'' = Some (VBool True)
   \<and> fst (Mkdir (memfs_host env_home) (snd (Mkdir (memfs_host env_home) example_store ''/p/q'' True))
            ''/p/q'' True) ''message'' = Some (VStr ''directory already exists'')
   \<and> fst (Mkdir (memfs_host env_home) example_store ''/home/u'' False) ''message''
       = Some (VStr ''directory already exists'')
   \<and> Mkdir (memfs_host env_home) example_store ''/etc/hosts'' False
       = (mcpError ''path exists but is not a directory: /etc/hosts'', example_store)"
proof -
  let ?H = "memfs_host env_home"
  let ?m = "Mkdir ?H example_store ''/p/q'' True"
  have a: "?m = (fst ?m, snd ?m)" by simp
  have b: "fst ?m ''success'' = Some (VBool True)" by code_simp
  from mkdir_existing_and_twice [of "''/p/q''" ?H "''/p/q''" example_store "node_info (MDir 493)" True "fst ?m" "snd ?m"]
    memfs_created_directory_exists [of env_home] a b
  have 1: "fst (Mkdir ?H (snd ?m) ''/p/q'' True) ''message'' = Some (VStr ''directory already exists'')"
    by blast
  have e: "ExpandPath (h_getenv ?H) ''/home/u'' = Inr ''/home/u''" by code_simp
  have st: "h_stat ?H example_store ''/home/u'' = Inr (node_info (MDir 493))" by code_simp
  from mkdir_existing_and_twice [of "''/home/u''" ?H "''/home/u''" example_store "node_info (MDir 493)" False]
    e st dir_info_is_dir [of 493]
  have "Mkdir ?H example_store ''/home/u'' False =
        (mcpSuccess [VStr ''path'', VStr ''/home/u'', VStr ''message'', VStr ''directory already exists''],
         example_store)"
    by simp
  then have 2: "fst (Mkdir ?H example_store ''/home/u'' False) ''message''
      = Some (VStr ''directory already exists'')"
    by (simp add: message_fields)
  have e3: "ExpandPath (h_getenv ?H) ''/etc/hosts'' = Inr ''/etc/hosts''" by code_simp
  have st3: "h_stat ?H example_store ''/etc/hosts'' = Inr (node_info (MFile 420 ''127.0.0.1 localhost''))"
    by code_simp
  from mkdir_existing_and_twice [of "''/etc/hosts''" ?H "''/etc/hosts''" example_store
      "node_info (MFile 420 ''127.0.0.1 localhost'')" False]
    e3 st3 file_info_not_dir [of 420 "''127.0.0.1 localhost''"]
  have 3: "Mkdir ?H example_store ''/etc/hosts'' False
       = (mcpError ''path exists but is not a directory: /etc/hosts'', example_store)"
    by simp
  from b 1 2 3 show ?thesis by blast
qed

text \<open>
  C6 as stated fails: on a read-only file system the path \<open>/new\<close> does not exist and
  the first \<open>Mkdir\<close> with \<open>parents\<close> true fails.
\<close>

theorem mkdir_fails_on_readonly_host:
  "Exists (readonly_host env_home) example_store ''/new''
     = mcpSuccess [VStr ''exists'', VBool False, VStr ''path'', VStr ''/new'']
   \<and> Mkdir (readonly_host env_home) example_store ''/new'' True
     = (mcpError ''mkdir /new: read-only file system'', example_store)
   \<and> fst (Mkdir (readonly_host env_home) example_store ''/new'' True) ''success'' = Some (VBool False)"
proof -
  let ?R = "readonly_host env_home"
  have p: "ExpandPath env_home ''/new'' = Inr ''/new''" by code_simp
  have st: "m_stat example_store ''/new'' = Inl (ENOENT ''stat'' ''/new'')" by code_simp
  have E: "Exists ?R example_store ''/new''
     = mcpSuccess [VStr ''exists'', VBool False, VStr ''path'', VStr ''/new'']"
    by (simp add: Exists_def readonly_host_def memfs_host_def p st ENOENT_def host_error_def
        IsNotExist_def)
  have M: "Mkdir ?R example_store ''/new'' True
     = (mcpError ''mkdir /new: read-only file system'', example_store)"
    by (simp add: Mkdir_def readonly_host_def memfs_host_def p st EROFS_def host_error_def
        IsPermission_def)
  from E M show ?thesis by (simp add: mcpError_success)
qed

section \<open>Rm on a directory\<close>

lemma HasPrefix_Contains: "HasPrefix str sub \<Longrightarrow> Contains str sub"
  by (cases str) (auto simp: HasPrefix_def)

lemma Contains_self: "Contains (sub @ rest) sub"
  by (rule HasPrefix_Contains) (simp add: HasPrefix_def)

lemma Contains_append: "Contains ys sub \<Longrightarrow> Contains (xs @ ys) sub"
  by (induction xs) simp_all

lemma not_empty_message:
  "Contains (''directory not empty: '' @ path @ ''. use recursive=true'') ''not empty''"
proof -
  have eq: "''directory not empty: '' @ path @ ''. use recursive=true''
      = ''directory '' @ (''not empty'' @ ('': '' @ path @ ''. use recursive=true''))"
    by simp
  show ?thesis
    by (subst eq) (rule Contains_append [OF Contains_self])
qed

text \<open>The error with which a host refuses to remove a directory that is not empty.\<close>

lemma ENOTEMPTY_text: "Contains (Error (ENOTEMPTY ''remove'' p)) ''not empty''"
proof -
  have eq: "Error (ENOTEMPTY ''remove'' p) = (''remove '' @ p @ '': directory '') @ (''not empty'' @ [])"
    by (simp add: ENOTEMPTY_def host_error_def)
  show ?thesis
    by (subst eq) (rule Contains_append [OF Contains_self])
qed

lemma ENOTEMPTY_class: "\<not> IsPermission (ENOTEMPTY op p) \<and> \<not> IsNotExist (ENOTEMPTY op p)"
  by (simp add: ENOTEMPTY_def host_error_def IsPermission_def IsNotExist_def)

lemma Rm_not_empty:
  assumes "path \<noteq> []" and "ExpandPath (h_getenv H) path = Inr p"
    and "h_stat H s p = Inr info" and "IsDir info"
    and "h_remove H s p = (Some e, s1)" and "Contains (Error e) ''not empty''"
  shows "Rm H s path False =
    (mcpError (''directory not empty: '' @ path @ ''. use recursive=true''), s1)"
  using assms by (simp add: Rm_def)

lemma Rm_recursive:
  assumes "path \<noteq> []" and "ExpandPath (h_getenv H) path = Inr p"
    and "h_stat H s p = Inr info" and "IsDir info"
  shows "Rm H s path True =
    (case h_removeAll H s p of
       (Some err, s2) \<Rightarrow>
         (if IsPermission err then mcpError (''permission denied: '' @ path)
          else mcpError (Error err), s2)
     | (None, s2) \<Rightarrow> (mcpSuccess [VStr ''path'', VStr p], s2))"
  using assms by (simp add: Rm_def split: prod.splits option.splits)

lemma path_success: "mcpSuccess [VStr ''path'', VStr p] ''success'' = Some (VBool True)"
  by (simp add: mcpSuccess_def)

lemma Rm_recursive_success_iff:
  assumes "path \<noteq> []" and "ExpandPath (h_getenv H) path = Inr p"
    and "h_stat H s p = Inr info" and "IsDir info"
  shows "fst (Rm H s path True) ''success'' = Some (VBool True) \<longleftrightarrow> fst (h_removeAll H s p) = None"
proof (cases "h_removeAll H s p")
  case (Pair e s2)
  show ?thesis
    unfolding Rm_recursive [OF assms] Pair
    by (cases e) (simp_all add: path_success mcpError_success)
qed

text \<open>
  C8 (as amended): for a path that resolves to an existing directory that is not empty
  (the host lists at least one entry in it). If the host refuses to remove the single
  entry with its error for a directory that is not empty and changes nothing, \<open>Rm\<close>
  without \<open>recursive\<close> fails with the message
  \<open>directory not empty: <path>. use recursive=true\<close>, which contains \<open>not empty\<close>,
  and the directory is in place with its entries. \<open>Rm\<close> with \<open>recursive\<close> succeeds
  exactly when the host's recursive removal reports no error; the state is then the one
  that removal left, and when the host reports the path as not found in it, \<open>Exists\<close>
  reports \<open>exists\<close> false.
\<close>

theorem rm_directory:
  "path \<noteq> [] \<and> ExpandPath (h_getenv H) path = Inr p \<and> h_stat H s p = Inr info \<and> IsDir info
   \<and> h_readDir H s p = Inr entries \<and> entries \<noteq> [] \<longrightarrow>
     (h_remove H s p = (Some (ENOTEMPTY ''remove'' p), s) \<longrightarrow>
          Rm H s path False =
            (mcpError (''directory not empty: '' @ path @ ''. use recursive=true''), s)
        \<and> Contains (''directory not empty: '' @ path @ ''. use recursive=true'') ''not empty''
        \<and> h_stat H (snd (Rm H s path False)) p = Inr info
        \<and> h_readDir H (snd (Rm H s path False)) p = Inr entries)
   \<and> (fst (Rm H s path True) ''success'' = Some (VBool True) \<longleftrightarrow> fst (h_removeAll H s p) = None)
   \<and> (h_removeAll H s p = (None, s2) \<longrightarrow>
          Rm H s path True = (mcpSuccess [VStr ''path'', VStr p], s2)
        \<and> (h_stat H s2 p = Inl err \<and> IsNotExist err \<longrightarrow>
             Exists H s2 path = mcpSuccess [VStr ''exists'', VBool False, VStr ''path'', VStr p]))"
proof (intro impI)
  assume a: "path \<noteq> [] \<and> ExpandPath (h_getenv H) path = Inr p \<and> h_stat H s p = Inr info
      \<and> IsDir info \<and> h_readDir H s p = Inr entries \<and> entries \<noteq> []"
  then have ne: "path \<noteq> []" and ep: "ExpandPath (h_getenv H) path = Inr p"
    and st: "h_stat H s p = Inr info" and d: "IsDir info"
    and rd: "h_readDir H s p = Inr entries" by simp_all
  have 1: "h_remove H s p = (Some (ENOTEMPTY ''remove'' p), s) \<longrightarrow>
          Rm H s path False =
            (mcpError (''directory not empty: '' @ path @ ''. use recursive=true''), s)
        \<and> Contains (''directory not empty: '' @ path @ ''. use recursive=true'') ''not empty''
        \<and> h_stat H (snd (Rm H s path False)) p = Inr info
        \<and> h_readDir H (snd (Rm H s path False)) p = Inr entries"
  proof (intro impI conjI)
    assume r: "h_remove H s p = (Some (ENOTEMPTY ''remove'' p), s)"
    show eq: "Rm H s path False =
            (mcpError (''directory not empty: '' @ path @ ''. use recursive=true''), s)"
      by (rule Rm_not_empty [OF ne ep st d r ENOTEMPTY_text])
    show "Contains (''directory not empty: '' @ path @ ''. use recursive=true'') ''not empty''"
      by (rule not_empty_message)
    show "h_stat H (snd (Rm H s path False)) p = Inr info"
      by (simp add: eq st)
    show "h_readDir H (snd (Rm H s path False)) p = Inr entries"
      by (simp add: eq rd)
  qed
  have 2: "fst (Rm H s path True) ''success'' = Some (VBool True) \<longleftrightarrow> fst (h_removeAll H s p) = None"
    by (rule Rm_recursive_success_iff [OF ne ep st d])
  have 3: "h_removeAll H s p = (None, s2) \<longrightarrow>
          Rm H s path True = (mcpSuccess [VStr ''path'', VStr p], s2)
        \<and> (h_stat H s2 p = Inl err \<and> IsNotExist err \<longrightarrow>
             Exists H s2 path = mcpSuccess [VStr ''exists'', VBool False, VStr ''path'', VStr p])"
  proof (intro impI conjI)
    assume r: "h_removeAll H s p = (None, s2)"
    then show "Rm H s path True = (mcpSuccess [VStr ''path'', VStr p], s2)"
      by (simp add: Rm_recursive [OF ne ep st d])
    assume "h_stat H s2 p = Inl err \<and> IsNotExist err"
    then have "h_stat H s2 p = Inl err" and "IsNotExist err" by simp_all
    then show "Exists H s2 path = mcpSuccess [VStr ''exists'', VBool False, VStr ''path'', VStr p]"
      by (rule Exists_missing [OF ne ep])
  qed
  from 1 2 3 show "(h_remove H s p = (Some (ENOTEMPTY ''remove'' p), s) \<longrightarrow>
          Rm H s path False =
            (mcpError (''directory not empty: '' @ path @ ''. use recursive=true''), s)
        \<and> Contains (''directory not empty: '' @ path @ ''. use recursive=true'') ''not empty''
        \<and> h_stat H (snd (Rm H s path False)) p = Inr info
        \<and> h_readDir H (snd (Rm H s path False)) p = Inr entries)
   \<and> (fst (Rm H s path True) ''success'' = Some (VBool True) \<longleftrightarrow> fst (h_removeAll H s p) = None)
   \<and> (h_removeAll H s p = (None, s2) \<longrightarrow>
          Rm H s path True = (mcpSuccess [VStr ''path'', VStr p], s2)
        \<and> (h_stat H s2 p = Inl err \<and> IsNotExist err \<longrightarrow>
             Exists H s2 path = mcpSuccess [VStr ''exists'', VBool False, VStr ''path'', VStr p]))"
    by blast
qed

theorem rm_directory_witness:
  "Rm (memfs_host env_home) example_store ''/d'' False
     = (mcpError ''directory not empty: /d. use recursive=true'', example_store)
   \<and> Contains ''directory not empty: /d. use recursive=true'' ''not empty''
   \<and> h_stat (memfs_host env_home) example_store ''/d'' = Inr (node_info (MDir 493))
   \<and> fst (Rm (memfs_host env_home) example_store ''/d'' True) ''success'' = Some (VBool True)
   \<and> Exists (memfs_host env_home) (snd (Rm (memfs_host env_home) example_store ''/d'' True)) ''/d''
     = mcpSuccess [VStr ''exists'', VBool False, VStr ''path'', VStr ''/d'']"
proof -
  let ?H = "memfs_host env_home"
  let ?s2 = "snd (h_removeAll ?H example_store ''/d'')"
  let ?entries = "[\<lparr>de_name = ''f.txt'', de_info = Inr (node_info (MFile 420 ''x''))\<rparr>]"
  have a: "''/d'' \<noteq> []" by simp
  have b: "ExpandPath (h_getenv ?H) ''/d'' = Inr ''/d''" by code_simp
  have c: "h_stat ?H example_store ''/d'' = Inr (node_info (MDir 493))" by code_simp
  have d: "IsDir (node_info (MDir 493))" by (rule dir_info_is_dir)
  have l: "h_readDir ?H example_store ''/d'' = Inr ?entries" by code_simp
  have n: "?entries \<noteq> []" by simp
  have e: "h_remove ?H example_store ''/d'' = (Some (ENOTEMPTY ''remove'' ''/d''), example_store)"
    by code_simp
  have g: "h_removeAll ?H example_store ''/d'' = (None, ?s2)" by code_simp
  have g': "fst (h_removeAll ?H example_store ''/d'') = None"
    using g by (metis fst_conv)
  have h: "h_stat ?H ?s2 ''/d'' = Inl (ENOENT ''stat'' ''/d'')" by code_simp
  have i: "IsNotExist (ENOENT ''stat'' ''/d'')" by code_simp
  have pre: "''/d'' \<noteq> [] \<and> ExpandPath (h_getenv ?H) ''/d'' = Inr ''/d''
      \<and> h_stat ?H example_store ''/d'' = Inr (node_info (MDir 493)) \<and> IsDir (node_info (MDir 493))
      \<and> h_readDir ?H example_store ''/d'' = Inr ?entries \<and> ?entries \<noteq> []"
    using a b c d l n by blast
  note T = rm_directory [of "''/d''" ?H "''/d''" example_store "node_info (MDir 493)" ?entries
      ?s2 "ENOENT ''stat'' ''/d''", THEN mp, OF pre]
  from T e
  have r1: "Rm ?H example_store ''/d'' False
       = (mcpError (''directory not empty: '' @ ''/d'' @ ''. use recursive=true''), example_store)
     \<and> Contains (''directory not empty: '' @ ''/d'' @ ''. use recursive=true'') ''not empty''"
    by blast
  from T g' have r2: "fst (Rm ?H example_store ''/d'' True) ''success'' = Some (VBool True)"
    by blast
  from T g h i
  have r3: "Rm ?H example_store ''/d'' True = (mcpSuccess [VStr ''path'', VStr ''/d''], ?s2)
     \<and> Exists ?H ?s2 ''/d'' = mcpSuccess [VStr ''exists'', VBool False, VStr ''path'', VStr ''/d'']"
    by blast
  from r3 have "snd (Rm ?H example_store ''/d'' True) = ?s2" by simp
  with r1 r2 r3 c show ?thesis by (simp add: path_success del: Contains.simps)
qed

text \<open>
  C8 as stated fails: on a read-only file system the directory \<open>/d\<close> exists and is
  not empty, \<open>Rm\<close> without \<open>recursive\<close> fails with a message that does not contain
  \<open>not empty\<close>, and \<open>Rm\<close> with \<open>recursive\<close> fails too.
\<close>

theorem rm_fails_on_readonly_host:
  "h_stat (readonly_host env_home) example_store ''/d'' = Inr (node_info (MDir 493))
   \<and> IsDir (node_info (MDir 493))
   \<and> h_readDir (readonly_host env_home) example_store ''/d''
     = Inr [\<lparr>de_name = ''f.txt'', de_info = Inr (node_info (MFile 420 ''x''))\<rparr>]
   \<and> Rm (readonly_host env_home) example_store ''/d'' False
     = (mcpError ''remove /d: read-only file system'', example_store)
   \<and> \<not> Contains ''remove /d: read-only file system'' ''not empty''
   \<and> Rm (readonly_host env_home) example_store ''/d'' True
     = (mcpError ''unlinkat /d: read-only file system'', example_store)
   \<and> fst (Rm (readonly_host env_home) example_store ''/d'' True) ''success'' = Some (VBool False)"
proof -
  let ?R = "readonly_host env_home"
  have p: "ExpandPath env_home ''/d'' = Inr ''/d''" by code_simp
  have st: "m_stat example_store ''/d'' = Inr (node_info (MDir 493))" by code_simp
  have d: "IsDir (node_info (MDir 493))" by (rule dir_info_is_dir)
  have rd: "h_readDir ?R example_store ''/d''
     = Inr [\<lparr>de_name = ''f.txt'', de_info = Inr (node_info (MFile 420 ''x''))\<rparr>]"
    by code_simp
  have nc: "\<not> Contains ''remove /d: read-only file system'' ''not empty''" by code_simp
  have nc': "\<not> Contains (Error (EROFS ''remove'' ''/d'')) ''not empty''" by code_simp
  have m1: "Error (EROFS ''remove'' ''/d'') = ''remove /d: read-only file system''" by code_simp
  have m2: "Error (EROFS ''unlinkat'' ''/d'') = ''unlinkat /d: read-only file system''" by code_simp
  have np1: "\<not> IsPermission (EROFS ''remove'' ''/d'')" by code_simp
  have np2: "\<not> IsPermission (EROFS ''unlinkat'' ''/d'')" by code_simp
  have r1: "Rm ?R example_store ''/d'' False
     = (mcpError ''remove /d: read-only file system'', example_store)"
    using nc' np1 m1 by (simp add: Rm_def readonly_host_def memfs_host_def p st d del: Contains.simps)
  have r2: "Rm ?R example_store ''/d'' True
     = (mcpError ''unlinkat /d: read-only file system'', example_store)"
    using np2 m2 by (simp add: Rm_def readonly_host_def memfs_host_def p st d del: Contains.simps)
  have s1: "h_stat ?R example_store ''/d'' = Inr (node_info (MDir 493))"
    by (simp add: readonly_host_def memfs_host_def st)
  from s1 d rd r1 nc r2 show ?thesis
    by (simp add: mcpError_success del: Contains.simps)
qed

text \<open>
  The test for the words \<open>not empty\<close> reads the whole text of the host's error, and
  that text holds the path. The property above is about directories that are not empty
  and says nothing of this case: an empty directory whose name holds those words, whose
  removal the read-only host refuses, is reported as not empty.
\<close>

lemma Rm_reads_the_path_in_the_error:
  "h_readDir (readonly_host env_home) named_store ''/not empty'' = Inr []
   \<and> Rm (readonly_host env_home) named_store ''/not empty'' False
     = (mcpError ''directory not empty: /not empty. use recursive=true'', named_store)"
proof -
  let ?R = "readonly_host env_home"
  have p: "ExpandPath env_home ''/not empty'' = Inr ''/not empty''" by code_simp
  have st: "m_stat named_store ''/not empty'' = Inr (node_info (MDir 493))" by code_simp
  have d: "IsDir (node_info (MDir 493))" by (rule dir_info_is_dir)
  have rd: "h_readDir ?R named_store ''/not empty'' = Inr []" by code_simp
  have c: "Contains (Error (EROFS ''remove'' ''/not empty'')) ''not empty''" by code_simp
  have r: "Rm ?R named_store ''/not empty'' False
     = (mcpError ''directory not empty: /not empty. use recursive=true'', named_store)"
    using c by (simp add: Rm_def readonly_host_def memfs_host_def p st d del: Contains.simps)
  from rd r show ?thesis by simp
qed

end
